theory Spec2Isabelle
  imports Main "HOL-Library.Word"
begin

unbundle bit_operations_syntax

section \<open>apfs-inspect: the data the program reads\<close>

text \<open>
  The program (\<^verbatim>\<open>src/apfs-inspect.c\<close>, function \<^verbatim>\<open>main\<close>) reads whole blocks of an APFS
  container and looks at them through the struct views \<^verbatim>\<open>nx_superblock_t\<close>,
  \<^verbatim>\<open>checkpoint_map_phys_t\<close> and \<^verbatim>\<open>omap_phys_t\<close>. A block is modelled by the values
  \<^verbatim>\<open>main\<close> reads from it: one field per struct member the program accesses, and one
  boolean per predicate of the headers \<^verbatim>\<open>apfs/func/*.h\<close> that it calls on the block
  (\<^verbatim>\<open>is_cksum_valid\<close>, \<^verbatim>\<open>is_nx_superblock\<close>, \<^verbatim>\<open>is_checkpoint_map_phys\<close>). The headers
  are not part of the source file, so the three booleans are independent here: nothing
  is assumed about how the predicates relate to one another or to the other fields.
  \<open>cpm_map\<close> holds the mappings that lie inside the block.
\<close>

type_synonym paddr = "64 word"

record checkpoint_mapping =
  cpm_paddr :: paddr

record block =
  is_cksum_valid :: bool
  is_nx_superblock :: bool
  is_checkpoint_map_phys :: bool
  o_xid :: "64 word"
  nx_magic :: "32 word"
  nx_xp_desc_blocks :: "32 word"
  nx_xp_desc_base :: paddr
  nx_xp_desc_index :: "32 word"
  nx_xp_desc_len :: "32 word"
  nx_omap_oid :: "64 word"
  cpm_count :: "32 word"
  cpm_map :: "checkpoint_mapping list"
  om_tree_type :: "32 word"
  om_tree_oid :: "64 word"

text \<open>
  The constants of the on-disk format come from headers outside the source file; they
  are parameters of the model.
\<close>

record layout =
  NX_MAGIC :: "32 word"
  OBJ_STORAGETYPE_MASK :: "32 word"
  OBJ_PHYSICAL :: "32 word"

text \<open>
  The environment of one run: the argument count, the result of \<^verbatim>\<open>fopen\<close> (\<open>None\<close> when
  the file opened, otherwise the value of \<^verbatim>\<open>errno\<close>), whether each \<^verbatim>\<open>malloc\<close> of the
  program returns a buffer (by call site and by the number of blocks asked for), and
  \<^verbatim>\<open>read_blocks\<close>: the blocks a read of \<open>n\<close> blocks at an address delivers. The C
  function returns how many blocks it read; here that is the length of the list.

  \<open>beyond_block\<close> is what the program finds in memory when it reads a checkpoint
  mapping past the end of a block of the checkpoint: \<open>beyond_block E rest k\<close> is the
  \<open>k\<close>-th mapping-sized entry after the block, where \<open>rest\<close> are the blocks that follow
  it in the buffer \<open>xp\<close>. The entries lie in those blocks and, past the last of them,
  outside the buffer; the model does not say how the bytes decode.
\<close>

datatype site = S_nxsb | S_xp_desc | S_xp | S_xp_obj | S_nx_omap | S_nx_omap_btree

record env =
  argc :: nat
  fopen_errno :: "int option"
  malloc_ok :: "site \<Rightarrow> nat \<Rightarrow> bool"
  read_blocks :: "paddr \<Rightarrow> nat \<Rightarrow> block list"
  beyond_block :: "block list \<Rightarrow> nat \<Rightarrow> checkpoint_mapping"

text \<open>
  Every way \<^verbatim>\<open>main\<close> ends. The \<open>Abort\<close> and \<open>End\<close> outcomes are its \<^verbatim>\<open>return\<close>
  statements; \<open>AssertClassification\<close> and \<open>AssertNumRead\<close> are the two \<^verbatim>\<open>assert\<close>
  calls (lines 187 and 225, with assertions compiled in); \<open>MemoryFault\<close> stands for
  a copy out of, or a block written into, memory outside the buffer, where C leaves
  the behaviour undefined.
\<close>

datatype outcome =
    UsageError
  | AbortOpen int
  | AbortAlloc site
  | AbortReadBlock0
  | EndIndirect
  | AbortReadDescArea
  | MemoryFault
  | AssertClassification
  | AbortReadEphemeral paddr
  | AssertNumRead
  | EndEphemeralMalformed
  | AbortReadOmap
  | EndOmapMalformed
  | EndOmapNotPhysical
  | AbortReadBtree paddr
  | EndAllDone

text \<open>The value \<^verbatim>\<open>main\<close> returns; \<open>None\<close> where the process does not return from it.\<close>

fun exit_status :: "outcome \<Rightarrow> int option" where
  "exit_status UsageError = Some 1"
| "exit_status (AbortOpen e) = Some (- e)"
| "exit_status (AbortAlloc s) = Some (- 1)"
| "exit_status AbortReadBlock0 = Some (- 1)"
| "exit_status EndIndirect = Some 0"
| "exit_status AbortReadDescArea = Some (- 1)"
| "exit_status MemoryFault = None"
| "exit_status AssertClassification = None"
| "exit_status (AbortReadEphemeral a) = Some (- 1)"
| "exit_status AssertNumRead = None"
| "exit_status EndEphemeralMalformed = Some 0"
| "exit_status AbortReadOmap = Some (- 1)"
| "exit_status EndOmapMalformed = Some 0"
| "exit_status EndOmapNotPhysical = Some 0"
| "exit_status (AbortReadBtree a) = Some (- 1)"
| "exit_status EndAllDone = Some 0"

text \<open>
  A run is the outcome or the value computed so far, with the reads issued so far: each
  entry is the address and the block count of one \<^verbatim>\<open>read_blocks\<close> call, in call order.
\<close>

type_synonym read_req = "paddr \<times> nat"
type_synonym 'a run = "(outcome + 'a) \<times> read_req list"

definition and_then :: "'a run \<Rightarrow> ('a \<Rightarrow> read_req list \<Rightarrow> 'b run) \<Rightarrow> 'b run" where
  "and_then r f = (case r of (Inl e, tr) \<Rightarrow> (Inl e, tr) | (Inr x, tr) \<Rightarrow> f x tr)"

section \<open>The program, stage by stage\<close>

subsection \<open>Block 0 (lines 31 to 82)\<close>

text \<open>
  Argument check, \<^verbatim>\<open>fopen\<close>, the buffer for one block, and the read of block 0. The
  checks of lines 64 to 82 (checksum, object type and magic number of block 0) only
  print a warning and go on, so they do not appear.
\<close>

definition read_block0 :: "env \<Rightarrow> block run" where
  "read_block0 E =
     (if argc E \<noteq> 2 then (Inl UsageError, [])
      else (case fopen_errno E of
        Some e \<Rightarrow> (Inl (AbortOpen e), [])
      | None \<Rightarrow>
          (if \<not> malloc_ok E S_nxsb 1 then (Inl (AbortAlloc S_nxsb), [])
           else let got = read_blocks E 0 1 in
             if length got \<noteq> 1 then (Inl AbortReadBlock0, [(0, 1)])
             else (Inr (hd got), [(0, 1)]))))"

subsection \<open>The checkpoint descriptor area (lines 86 to 110)\<close>

text \<open>
  \<^verbatim>\<open>nxsb->nx_xp_desc_blocks & ~(1 << 31)\<close> clears bit 31, and
  \<^verbatim>\<open>nxsb->nx_xp_desc_blocks >> 31\<close> is non-zero exactly when bit 31 is set. The buffer
  for the area is allocated before the flag is looked at.
\<close>

definition xp_desc_blocks_of :: "block \<Rightarrow> 32 word" where
  "xp_desc_blocks_of nxsb = nx_xp_desc_blocks nxsb AND NOT (push_bit 31 1)"

definition is_indirect :: "block \<Rightarrow> bool" where
  "is_indirect nxsb = (drop_bit 31 (nx_xp_desc_blocks nxsb) \<noteq> 0)"

definition load_xp_desc :: "env \<Rightarrow> block \<Rightarrow> read_req list \<Rightarrow> block list run" where
  "load_xp_desc E nxsb tr =
     (let xp_desc_blocks = xp_desc_blocks_of nxsb in
      if \<not> malloc_ok E S_xp_desc (unat xp_desc_blocks) then (Inl (AbortAlloc S_xp_desc), tr)
      else if is_indirect nxsb then (Inl EndIndirect, tr)
      else let got = read_blocks E (nx_xp_desc_base nxsb) (unat xp_desc_blocks) in
        if length got \<noteq> unat xp_desc_blocks
        then (Inl AbortReadDescArea, tr @ [(nx_xp_desc_base nxsb, unat xp_desc_blocks)])
        else (Inr got, tr @ [(nx_xp_desc_base nxsb, unat xp_desc_blocks)]))"

subsection \<open>The scan for the latest superblock (lines 113 to 139)\<close>

text \<open>
  One iteration of the loop at index \<open>i\<close>, with \<open>i_latest_nx\<close> before and after. A block
  that fails the checksum, a superblock with a wrong magic number and a block that is
  neither a superblock nor a checkpoint map are skipped (a warning is printed); a
  checkpoint map changes nothing either.
\<close>

definition scan_step :: "layout \<Rightarrow> block list \<Rightarrow> nat \<Rightarrow> nat \<Rightarrow> nat" where
  "scan_step K xp_desc i_latest_nx i =
     (if \<not> is_cksum_valid (xp_desc ! i) then i_latest_nx
      else if is_nx_superblock (xp_desc ! i) then
        (if nx_magic (xp_desc ! i) \<noteq> NX_MAGIC K then i_latest_nx
         else if o_xid (xp_desc ! i) > o_xid (xp_desc ! i_latest_nx) then i
         else i_latest_nx)
      else if \<not> is_checkpoint_map_phys (xp_desc ! i) then i_latest_nx
      else i_latest_nx)"

text \<open>The loop runs \<open>i\<close> from 0 to the end of the area, starting with \<open>i_latest_nx = 0\<close>.\<close>

definition scan_latest :: "layout \<Rightarrow> block list \<Rightarrow> nat" where
  "scan_latest K xp_desc = foldl (scan_step K xp_desc) 0 [0..<length xp_desc]"

text \<open>
  After the loop, \<^verbatim>\<open>memcpy(nxsb, xp_desc[i_latest_nx], sizeof(nx_superblock_t))\<close> makes the
  block at the index found the superblock the rest of the program works with. In an
  area of no blocks the copy reads outside the buffer.
\<close>

definition find_latest_superblock :: "layout \<Rightarrow> block list \<Rightarrow> outcome + (nat \<times> block)" where
  "find_latest_superblock K xp_desc =
     (let i_latest_nx = scan_latest K xp_desc in
      if i_latest_nx < length xp_desc then Inr (i_latest_nx, xp_desc ! i_latest_nx)
      else Inl MemoryFault)"

subsection \<open>Copying the checkpoint out of the ring buffer (lines 156 to 172)\<close>

text \<open>
  \<^verbatim>\<open>memcpy\<close> of \<open>n\<close> whole blocks out of a buffer, starting at block \<open>off\<close>: defined
  only when the blocks lie inside the buffer.
\<close>

definition memcpy_blocks :: "block list \<Rightarrow> nat \<Rightarrow> nat \<Rightarrow> block list option" where
  "memcpy_blocks src off n =
     (if off + n \<le> length src then Some (take n (drop off src)) else None)"

text \<open>
  The index, the length, the block count and the two segment lengths are
  \<^verbatim>\<open>uint32_t\<close>: the sum and the differences wrap around. The destination \<open>xp\<close> has
  room for \<open>nx_xp_desc_len\<close> blocks.
\<close>

definition extract_checkpoint ::
  "block list \<Rightarrow> 32 word \<Rightarrow> 32 word \<Rightarrow> 32 word \<Rightarrow> block list option" where
  "extract_checkpoint xp_desc xp_desc_blocks desc_index desc_len =
     (if desc_index + desc_len \<le> xp_desc_blocks
      then memcpy_blocks xp_desc (unat desc_index) (unat desc_len)
      else
        let segment_1_len = xp_desc_blocks - desc_index;
            segment_2_len = desc_len - segment_1_len
        in case memcpy_blocks xp_desc (unat desc_index) (unat segment_1_len) of
             None \<Rightarrow> None
           | Some seg1 \<Rightarrow>
               (case memcpy_blocks xp_desc 0 (unat segment_2_len) of
                  None \<Rightarrow> None
                | Some seg2 \<Rightarrow>
                    if unat segment_1_len + unat segment_2_len \<le> unat desc_len
                    then Some (seg1 @ seg2) else None))"

text \<open>Everything up to the materialized checkpoint: the superblock chosen and \<open>xp\<close>.\<close>

definition materialize :: "layout \<Rightarrow> env \<Rightarrow> (block \<times> block list) run" where
  "materialize K E =
     and_then (read_block0 E) (\<lambda>nxsb0 tr.
     and_then (load_xp_desc E nxsb0 tr) (\<lambda>xp_desc tr.
       case find_latest_superblock K xp_desc of
         Inl e \<Rightarrow> (Inl e, tr)
       | Inr (i_latest_nx, nxsb) \<Rightarrow>
           (if \<not> malloc_ok E S_xp (unat (nx_xp_desc_len nxsb)) then (Inl (AbortAlloc S_xp), tr)
            else (case extract_checkpoint xp_desc (xp_desc_blocks_of nxsb0)
                         (nx_xp_desc_index nxsb) (nx_xp_desc_len nxsb) of
                    None \<Rightarrow> (Inl MemoryFault, tr)
                  | Some xp \<Rightarrow> (Inr (nxsb, xp), tr)))))"

subsection \<open>Listing the checkpoint's blocks (lines 183 to 191)\<close>

text \<open>True when the loop gets through; false when the assertion of line 187 fails.\<close>

fun describe_blocks :: "block list \<Rightarrow> bool" where
  "describe_blocks [] = True"
| "describe_blocks (b # bs) =
     (if is_nx_superblock b then describe_blocks bs
      else if is_checkpoint_map_phys b then describe_blocks bs
      else False)"

subsection \<open>Counting the checkpoint mappings (lines 193 to 202)\<close>

text \<open>\<open>xp_obj_len\<close> is a \<^verbatim>\<open>uint32_t\<close>: the additions wrap around.\<close>

fun count_mappings :: "block list \<Rightarrow> 32 word \<Rightarrow> 32 word" where
  "count_mappings [] xp_obj_len = xp_obj_len"
| "count_mappings (b # bs) xp_obj_len =
     count_mappings bs
       (if is_checkpoint_map_phys b then xp_obj_len + cpm_count b else xp_obj_len)"

subsection \<open>Reading the ephemeral objects (lines 206 to 225)\<close>

text \<open>
  \<open>xp_map->cpm_map[j]\<close>, for the checkpoint map \<open>xp_map\<close> followed in \<open>xp\<close> by the
  blocks \<open>rest\<close>: an entry of the block while \<open>j\<close> is inside it, and whatever lies
  after the block otherwise. The loop bounds \<open>j\<close> by \<open>cpm_count\<close> only.
\<close>

definition mapping_at :: "env \<Rightarrow> block \<Rightarrow> block list \<Rightarrow> nat \<Rightarrow> checkpoint_mapping" where
  "mapping_at E xp_map rest j =
     (if j < length (cpm_map xp_map) then cpm_map xp_map ! j
      else beyond_block E rest (j - length (cpm_map xp_map)))"

text \<open>
  The inner loop over the mappings \<open>j\<close> of one checkpoint map. \<open>xp_obj\<close> is the list of
  objects read so far, so \<open>num_read\<close> is its length; \<open>cap\<close> is the number of blocks
  \<open>xp_obj\<close> was allocated for. Every iteration issues its read. A read that delivers
  no block ends the run; a block delivered into \<open>xp_obj[num_read]\<close> past the allocation
  is written outside the buffer.
\<close>

fun load_mappings ::
  "env \<Rightarrow> nat \<Rightarrow> block \<Rightarrow> block list \<Rightarrow> nat list \<Rightarrow> block list \<Rightarrow> read_req list \<Rightarrow>
     block list run" where
  "load_mappings E cap xp_map rest [] xp_obj tr = (Inr xp_obj, tr)"
| "load_mappings E cap xp_map rest (j # js) xp_obj tr =
     (let a = cpm_paddr (mapping_at E xp_map rest j); got = read_blocks E a 1 in
      if length got \<noteq> 1 then (Inl (AbortReadEphemeral a), tr @ [(a, 1)])
      else if cap \<le> length xp_obj then (Inl MemoryFault, tr @ [(a, 1)])
      else load_mappings E cap xp_map rest js (xp_obj @ got) (tr @ [(a, 1)]))"

text \<open>The outer loop over the blocks of the checkpoint.\<close>

fun load_all :: "env \<Rightarrow> nat \<Rightarrow> block list \<Rightarrow> block list \<Rightarrow> read_req list \<Rightarrow> block list run" where
  "load_all E cap [] xp_obj tr = (Inr xp_obj, tr)"
| "load_all E cap (b # bs) xp_obj tr =
     (if is_checkpoint_map_phys b then
        and_then (load_mappings E cap b bs [0..<unat (cpm_count b)] xp_obj tr)
          (\<lambda>xp_obj' tr'. load_all E cap bs xp_obj' tr')
      else load_all E cap bs xp_obj tr)"

text \<open>
  What the run holds once the ephemeral objects are read: the superblock, the
  checkpoint, the mapping count and the objects.
\<close>

record loaded =
  l_nxsb :: block
  l_xp :: "block list"
  l_xp_obj_len :: "32 word"
  l_xp_obj :: "block list"

definition load_ephemeral :: "layout \<Rightarrow> env \<Rightarrow> loaded run" where
  "load_ephemeral K E =
     and_then (materialize K E) (\<lambda>(nxsb, xp) tr.
       if \<not> describe_blocks xp then (Inl AssertClassification, tr)
       else let xp_obj_len = count_mappings xp 0 in
         if \<not> malloc_ok E S_xp_obj (unat xp_obj_len) then (Inl (AbortAlloc S_xp_obj), tr)
         else and_then (load_all E (unat xp_obj_len) xp [] tr) (\<lambda>xp_obj tr'.
           (Inr \<lparr>l_nxsb = nxsb, l_xp = xp, l_xp_obj_len = xp_obj_len, l_xp_obj = xp_obj\<rparr>,
            tr')))"

subsection \<open>Validation and the object map (lines 225 to 328)\<close>

text \<open>
  The loop of lines 228 to 237 over \<open>xp_obj[i]\<close>, \<open>i < xp_obj_len\<close>: false at the first
  object whose checksum does not validate.
\<close>

fun validate_all :: "block list \<Rightarrow> bool" where
  "validate_all [] = True"
| "validate_all (obj # objs) = (if \<not> is_cksum_valid obj then False else validate_all objs)"

text \<open>
  Line 225 is \<^verbatim>\<open>assert(num_read = xp_obj_len)\<close>, an assignment: the assertion fails
  exactly when \<open>xp_obj_len\<close> is zero. The buffer of the object map (line 254) is not
  checked before the read of line 255 is issued: a block delivered into a buffer that
  was not allocated is written outside memory. The checksum of the B-tree root (line
  296) only changes what is printed, and so do lines 308 to 319.
\<close>

definition finish :: "layout \<Rightarrow> env \<Rightarrow> loaded \<Rightarrow> read_req list \<Rightarrow> unit run" where
  "finish K E L tr =
     (if l_xp_obj_len L = 0 then (Inl AssertNumRead, tr)
      else if \<not> validate_all (take (unat (l_xp_obj_len L)) (l_xp_obj L))
      then (Inl EndEphemeralMalformed, tr)
      else let omap_req = (nx_omap_oid (l_nxsb L), 1);
               got = read_blocks E (nx_omap_oid (l_nxsb L)) 1 in
        if length got \<noteq> 1 then (Inl AbortReadOmap, tr @ [omap_req])
        else if \<not> malloc_ok E S_nx_omap 1 then (Inl MemoryFault, tr @ [omap_req])
        else let nx_omap = hd got in
          if \<not> is_cksum_valid nx_omap then (Inl EndOmapMalformed, tr @ [omap_req])
          else if om_tree_type nx_omap AND OBJ_STORAGETYPE_MASK K \<noteq> OBJ_PHYSICAL K
          then (Inl EndOmapNotPhysical, tr @ [omap_req])
          else if \<not> malloc_ok E S_nx_omap_btree 1
          then (Inl (AbortAlloc S_nx_omap_btree), tr @ [omap_req])
          else let btree_req = (om_tree_oid nx_omap, 1);
                   got' = read_blocks E (om_tree_oid nx_omap) 1 in
            if length got' \<noteq> 1
            then (Inl (AbortReadBtree (om_tree_oid nx_omap)), tr @ [omap_req, btree_req])
            else (Inr (), tr @ [omap_req, btree_req]))"

text \<open>The whole program: how it ends, and every read it issued, in order.\<close>

definition main :: "layout \<Rightarrow> env \<Rightarrow> outcome \<times> read_req list" where
  "main K E =
     (case and_then (load_ephemeral K E) (finish K E) of
        (Inl e, tr) \<Rightarrow> (e, tr)
      | (Inr u, tr) \<Rightarrow> (EndAllDone, tr))"

section \<open>Notions of the specification\<close>

text \<open>
  The mappings a checkpoint lists, in block order: of every checkpoint map, the
  \<open>cpm_count\<close> entries from \<open>cpm_map[0]\<close> on. Their number, counted without
  wrap-around, and the reads that fetch them one block at a time.
\<close>

fun collect_mappings :: "env \<Rightarrow> block list \<Rightarrow> checkpoint_mapping list" where
  "collect_mappings E [] = []"
| "collect_mappings E (b # bs) =
     (if is_checkpoint_map_phys b
      then map (mapping_at E b bs) [0..<unat (cpm_count b)] @ collect_mappings E bs
      else collect_mappings E bs)"

definition total_cpm_count :: "block list \<Rightarrow> nat" where
  "total_cpm_count xp =
     sum_list (map (\<lambda>b. unat (cpm_count b)) (filter is_checkpoint_map_phys xp))"

definition fetches :: "checkpoint_mapping list \<Rightarrow> read_req list" where
  "fetches ms = map (\<lambda>m. (cpm_paddr m, 1)) ms"

text \<open>
  A read came short when it delivered another number of blocks than it asked for; a
  log is \<open>delivered\<close> when none of its reads came short.
\<close>

definition short_read :: "env \<Rightarrow> read_req \<Rightarrow> bool" where
  "short_read E r = (length (read_blocks E (fst r) (snd r)) \<noteq> snd r)"

definition delivered :: "env \<Rightarrow> read_req list \<Rightarrow> bool" where
  "delivered E tr = list_all (\<lambda>r. \<not> short_read E r) tr"

text \<open>
  A well-formed container superblock: the block passes checksum validation, classifies
  as a container superblock and carries the magic number.
\<close>

definition valid_nx_superblock :: "layout \<Rightarrow> block \<Rightarrow> bool" where
  "valid_nx_superblock K b =
     (is_cksum_valid b \<and> is_nx_superblock b \<and> nx_magic b = NX_MAGIC K)"

text \<open>
  The kinds of terminal result the specification names, and the outcomes of \<^verbatim>\<open>main\<close>
  that fall under each: a failed block read is an \<open>IOError\<close>; the indirect descriptor
  area and the object map that is not physical are an \<open>UnsupportedLayout\<close>; a malformed
  ephemeral object or object map, where the program gives the checkpoint up, is a
  \<open>NoConsistentCheckpoint\<close>. The other outcomes (usage, \<^verbatim>\<open>fopen\<close>, allocation,
  assertions, faults) are not among the kinds the specification lists.
\<close>

datatype kind = IOError | NoConsistentCheckpoint | UnsupportedLayout | Completed

fun kind_of :: "outcome \<Rightarrow> kind option" where
  "kind_of AbortReadBlock0 = Some IOError"
| "kind_of AbortReadDescArea = Some IOError"
| "kind_of (AbortReadEphemeral a) = Some IOError"
| "kind_of AbortReadOmap = Some IOError"
| "kind_of (AbortReadBtree a) = Some IOError"
| "kind_of EndIndirect = Some UnsupportedLayout"
| "kind_of EndOmapNotPhysical = Some UnsupportedLayout"
| "kind_of EndEphemeralMalformed = Some NoConsistentCheckpoint"
| "kind_of EndOmapMalformed = Some NoConsistentCheckpoint"
| "kind_of EndAllDone = Some Completed"
| "kind_of UsageError = None"
| "kind_of (AbortOpen e) = None"
| "kind_of (AbortAlloc s) = None"
| "kind_of MemoryFault = None"
| "kind_of AssertClassification = None"
| "kind_of AssertNumRead = None"

text \<open>
  How the log of a stage goes with its result: a stage that goes on, or ends in an
  outcome other than an I/O error, has a delivered log (a fault apart, of which nothing
  is said); a stage that ends in an I/O error has a read that came short.
\<close>

definition log_fits :: "env \<Rightarrow> 'a run \<Rightarrow> bool" where
  "log_fits E R =
     (case fst R of
        Inr x \<Rightarrow> delivered E (snd R)
      | Inl e \<Rightarrow>
          if kind_of e = Some IOError then \<not> delivered E (snd R)
          else e = MemoryFault \<or> delivered E (snd R))"

section \<open>Example containers\<close>

text \<open>
  Concrete inputs for the examples below. The constants are those of Apple's
  file-system reference; a block is built from \<open>blank\<close> by setting the fields that
  matter. A container image is the list of its blocks, block \<open>a\<close> at position \<open>a\<close>;
  a read past the end of the image is short. In these runs every entry read past the
  end of a checkpoint map decodes to the address 0.
\<close>

definition K0 :: layout where
  "K0 = \<lparr>NX_MAGIC = 0x4253584E, OBJ_STORAGETYPE_MASK = 0xC0000000, OBJ_PHYSICAL = 0x40000000\<rparr>"

definition blank :: block where
  "blank = \<lparr>is_cksum_valid = True, is_nx_superblock = False, is_checkpoint_map_phys = False,
     o_xid = 0, nx_magic = 0, nx_xp_desc_blocks = 0, nx_xp_desc_base = 0,
     nx_xp_desc_index = 0, nx_xp_desc_len = 0, nx_omap_oid = 0, cpm_count = 0,
     cpm_map = [], om_tree_type = 0, om_tree_oid = 0\<rparr>"

definition sb :: "64 word \<Rightarrow> 32 word \<Rightarrow> 32 word \<Rightarrow> block" where
  "sb xid desc_index desc_len =
     blank\<lparr>is_nx_superblock := True, nx_magic := 0x4253584E, o_xid := xid,
       nx_xp_desc_index := desc_index, nx_xp_desc_len := desc_len\<rparr>"

definition cpm :: "64 word \<Rightarrow> paddr list \<Rightarrow> block" where
  "cpm xid addrs =
     blank\<lparr>is_checkpoint_map_phys := True, o_xid := xid,
       cpm_count := of_nat (length addrs), cpm_map := map (\<lambda>a. \<lparr>cpm_paddr = a\<rparr>) addrs\<rparr>"

definition corrupt :: "block \<Rightarrow> block" where
  "corrupt b = b\<lparr>is_cksum_valid := False\<rparr>"

definition image_env :: "block list \<Rightarrow> env" where
  "image_env img =
     \<lparr>argc = 2, fopen_errno = None, malloc_ok = (\<lambda>s n. True),
      read_blocks = (\<lambda>a n. take n (drop (unat a) img)),
      beyond_block = (\<lambda>rest k. \<lparr>cpm_paddr = 0\<rparr>)\<rparr>"

text \<open>
  A container whose descriptor area is the two blocks at addresses 1 and 2: the
  superblock of transaction 1 at index 0 and its checkpoint map at index 1, so that the
  checkpoint (start index 1, two blocks) wraps around. Blocks 3 to 7 hold ephemeral
  objects, of which \<open>obj3\<close> is the third and \<open>eph\<close> a sound one; the object map is
  block 8, its B-tree root block 9. \<open>addrs\<close> are the addresses the checkpoint map
  lists; in \<open>container\<close> they are 3 to 7.
\<close>

definition nxsb1 :: block where
  "nxsb1 = (sb 1 1 2)\<lparr>nx_xp_desc_blocks := 2, nx_xp_desc_base := 1, nx_omap_oid := 8\<rparr>"

definition eph :: block where
  "eph = blank\<lparr>o_xid := 1\<rparr>"

definition container_with :: "paddr list \<Rightarrow> block \<Rightarrow> block list" where
  "container_with addrs obj3 =
     [nxsb1, nxsb1, cpm 1 addrs,
      eph, eph, obj3, eph, eph,
      blank\<lparr>om_tree_type := 0x40000000, om_tree_oid := 9\<rparr>, blank]"

definition container :: "block \<Rightarrow> block list" where
  "container obj3 = container_with [3, 4, 5, 6, 7] obj3"

text \<open>
  A checkpoint map that holds one mapping (to block 5) and declares two: the second
  is read past the end of the block.
\<close>

definition cpm_overrun :: block where
  "cpm_overrun = (cpm 1 [5])\<lparr>cpm_count := 2\<rparr>"

definition container_overrun :: "block \<Rightarrow> block list" where
  "container_overrun obj3 = [nxsb1, nxsb1, cpm_overrun, eph, eph, obj3]"

text \<open>The reads of a run on such a container up to the last ephemeral object.\<close>

definition container_reads :: "read_req list" where
  "container_reads = [(0, 1), (1, 2), (3, 1), (4, 1), (5, 1), (6, 1), (7, 1)]"

text \<open>Block 0 of a container whose descriptor area is addressed through a B-tree.\<close>

definition nxsb_indirect :: "32 word \<Rightarrow> block" where
  "nxsb_indirect n = (sb 1 0 2)\<lparr>nx_xp_desc_blocks := n, nx_xp_desc_base := 1\<rparr>"

text \<open>An allocator that refuses requests of \<open>2 ^ 20\<close> blocks or more.\<close>

definition small_heap :: "env \<Rightarrow> env" where
  "small_heap E = E\<lparr>malloc_ok := (\<lambda>s n. n < 2 ^ 20)\<rparr>"

text \<open>
  A container whose checkpoint (start index 0, two blocks) holds the superblock and a
  block that is neither a superblock nor a checkpoint map.
\<close>

definition nxsb_stray :: block where
  "nxsb_stray = (sb 1 0 2)\<lparr>nx_xp_desc_blocks := 2, nx_xp_desc_base := 1\<rparr>"

definition container_stray :: "block list" where
  "container_stray = [nxsb_stray, nxsb_stray, blank]"

text \<open>Four blocks told apart by their transaction identifiers 0 to 3.\<close>

definition area4 :: "block list" where
  "area4 = [blank\<lparr>o_xid := 0\<rparr>, blank\<lparr>o_xid := 1\<rparr>, blank\<lparr>o_xid := 2\<rparr>, blank\<lparr>o_xid := 3\<rparr>]"

text \<open>
  A checkpoint map that declares \<open>2 ^ 31\<close> mappings, and a container whose
  checkpoint (start index 1, three blocks, in an area of three) holds two of them.
\<close>

definition cpm_huge :: block where
  "cpm_huge = blank\<lparr>is_checkpoint_map_phys := True, o_xid := 1, cpm_count := 0x80000000\<rparr>"

definition nxsb_huge :: block where
  "nxsb_huge = (sb 1 1 3)\<lparr>nx_xp_desc_blocks := 3, nx_xp_desc_base := 1\<rparr>"

definition container_huge :: "block list" where
  "container_huge = [nxsb_huge, nxsb_huge, cpm_huge, cpm_huge]"

section \<open>The checkpoint descriptor area as a ring buffer\<close>

text \<open>
  The block count the program works with has bit 31 cleared, so it stays below
  \<open>2 ^ 31\<close>; when the flag is clear it is the field itself.
\<close>

lemma xp_desc_blocks_of_take_bit: "xp_desc_blocks_of b = take_bit 31 (nx_xp_desc_blocks b)"
proof -
  have "NOT (push_bit 31 1) = (mask 31 :: 32 word)"
    by (simp add: mask_eq_exp_minus_1)
  then show ?thesis
    unfolding xp_desc_blocks_of_def by (simp only: take_bit_eq_mask)
qed

lemma xp_desc_blocks_of_bound: "unat (xp_desc_blocks_of b) < 2 ^ 31"
  using take_bit_nat_less_exp [of 31 "unat (nx_xp_desc_blocks b)"]
  by (simp only: xp_desc_blocks_of_take_bit unsigned_take_bit_eq)

lemma is_indirect_bit: "is_indirect b = bit (nx_xp_desc_blocks b) 31"
  using drop_bit_eq_zero_iff_not_bit_last [of "nx_xp_desc_blocks b"]
  by (simp add: is_indirect_def)

lemma memcpy_blocks_length: "memcpy_blocks src off n = Some xs \<Longrightarrow> length xs = n"
  by (auto simp: memcpy_blocks_def split: if_splits)

text \<open>Whenever the copy stays inside the buffers, \<open>xp\<close> has \<open>nx_xp_desc_len\<close> blocks.\<close>

lemma extract_checkpoint_length:
  assumes "extract_checkpoint xp_desc bc idx n = Some xp"
  shows "length xp = unat n"
proof (cases "idx + n \<le> bc")
  case True
  then show ?thesis
    using assms by (simp add: extract_checkpoint_def memcpy_blocks_length)
next
  case False
  define s1 where "s1 = bc - idx"
  from False assms obtain seg1 seg2 where
    seg1: "memcpy_blocks xp_desc (unat idx) (unat s1) = Some seg1" and
    seg2: "memcpy_blocks xp_desc 0 (unat (n - s1)) = Some seg2" and
    fit: "unat s1 + unat (n - s1) \<le> unat n" and xp: "xp = seg1 @ seg2"
    by (auto simp: extract_checkpoint_def Let_def s1_def split: option.splits if_splits)
  have "s1 \<le> n"
    using fit by (simp add: word_le_nat_alt)
  then have "unat (n - s1) = unat n - unat s1"
    by (simp add: unat_sub)
  moreover have "unat s1 \<le> unat n"
    using \<open>s1 \<le> n\<close> by (simp add: word_le_nat_alt)
  ultimately show ?thesis
    using seg1 seg2 xp by (simp add: memcpy_blocks_length)
qed

text \<open>The two paths of the copy, with the 32-bit arithmetic resolved.\<close>

lemma extract_direct:
  assumes "length xp_desc = unat bc" and "unat idx + unat n \<le> unat bc"
  shows "extract_checkpoint xp_desc bc idx n = Some (take (unat n) (drop (unat idx) xp_desc))"
proof -
  have "unat idx + unat n < 2 ^ 32"
    using assms(2) unsigned_less [of bc, where 'a = nat] by simp
  then have "unat (idx + n) = unat idx + unat n"
    by (simp add: unat_add_lem [THEN iffD1])
  then have "idx + n \<le> bc"
    using assms(2) by (simp add: word_le_nat_alt)
  then show ?thesis
    using assms by (simp add: extract_checkpoint_def memcpy_blocks_def)
qed

lemma extract_wrapped:
  assumes "length xp_desc = unat bc" and "unat bc < 2 ^ 31"
    and "unat bc < unat idx + unat n" and "unat idx \<le> unat bc"
    and "unat n - (unat bc - unat idx) \<le> unat bc"
  shows "extract_checkpoint xp_desc bc idx n =
    Some (drop (unat idx) xp_desc @ take (unat n - (unat bc - unat idx)) xp_desc)"
proof -
  have "unat idx + unat n < 2 ^ 32"
    using assms by simp
  then have "unat (idx + n) = unat idx + unat n"
    by (simp add: unat_add_lem [THEN iffD1])
  then have wrap: "\<not> idx + n \<le> bc"
    using assms(3) by (simp add: word_le_nat_alt)
  have s1: "unat (bc - idx) = unat bc - unat idx"
    using assms(4) by (simp add: unat_sub word_le_nat_alt)
  have "bc - idx \<le> n"
    using assms(3,4) s1 by (simp add: word_le_nat_alt)
  then have s2: "unat (n - (bc - idx)) = unat n - (unat bc - unat idx)"
    using s1 by (simp add: unat_sub)
  show ?thesis
    using assms wrap s1 s2 by (simp add: extract_checkpoint_def memcpy_blocks_def Let_def)
qed

lemma ring_nth_direct:
  assumes "i + n \<le> length xs" and "k < n"
  shows "take n (drop i xs) ! k = xs ! ((i + k) mod length xs)"
  using assms by simp

lemma ring_nth_wrapped:
  assumes "i \<le> length xs" and "length xs < i + n" and "n - (length xs - i) \<le> length xs"
    and "k < n"
  shows "(drop i xs @ take (n - (length xs - i)) xs) ! k = xs ! ((i + k) mod length xs)"
proof (cases "k < length xs - i")
  case True
  then show ?thesis by (simp add: nth_append)
next
  case False
  then have ge: "length xs \<le> i + k" by simp
  have lt: "i + k < 2 * length xs" using assms by simp
  have "(i + k) mod length xs = i + k - length xs"
    using ge lt by (simp add: mod_if le_mod_geq)
  moreover have "k - (length xs - i) = i + k - length xs"
    using assms(1) ge by simp
  moreover have "k - (length xs - i) < n - (length xs - i)"
    using assms False by simp
  ultimately show ?thesis
    using False by (simp add: nth_append)
qed

text \<open>
  Claim C1, as the code has it. For a descriptor area of \<open>bc\<close> blocks, \<open>bc\<close> below
  \<open>2 ^ 31\<close> as the masked block count always is, and a requested start index \<open>idx\<close>
  and length \<open>n\<close>: when \<open>idx + n \<le> bc\<close> (the boundary \<open>idx + n = bc\<close> included) the
  result is the slice from \<open>idx\<close> of \<open>n\<close> blocks; when \<open>idx + n > bc\<close>, and the start
  index is inside the area and the second segment is no longer than the area, the
  result is the tail from \<open>idx\<close> followed by the first \<open>n - (bc - idx)\<close> blocks. In both
  cases the result has \<open>n\<close> blocks, and block \<open>k\<close> of it is block \<open>(idx + k) mod bc\<close> of
  the area.
\<close>

theorem extract_checkpoint_ring_buffer:
  assumes "length xp_desc = unat bc" and "unat bc < 2 ^ 31"
    and "unat bc < unat idx + unat n \<longrightarrow>
           unat idx \<le> unat bc \<and> unat n - (unat bc - unat idx) \<le> unat bc"
  shows "\<exists>xp. extract_checkpoint xp_desc bc idx n = Some xp \<and>
           xp = (if unat idx + unat n \<le> unat bc
                 then take (unat n) (drop (unat idx) xp_desc)
                 else drop (unat idx) xp_desc @ take (unat n - (unat bc - unat idx)) xp_desc) \<and>
           length xp = unat n \<and>
           (\<forall>k<unat n. xp ! k = xp_desc ! ((unat idx + k) mod unat bc))"
proof (cases "unat idx + unat n \<le> unat bc")
  case True
  then show ?thesis
    using assms(1) extract_direct [OF assms(1) True]
      ring_nth_direct [of "unat idx" "unat n" xp_desc]
    by simp
next
  case False
  then have w1: "unat bc < unat idx + unat n" by simp
  with assms(3) have w2: "unat idx \<le> unat bc"
    and w3: "unat n - (unat bc - unat idx) \<le> unat bc"
    by blast+
  note w = w1 w2 w3
  show ?thesis
    using False w assms(1) extract_wrapped [OF assms(1,2) w]
      ring_nth_wrapped [of "unat idx" xp_desc "unat n"]
    by simp
qed

text \<open>
  Scenario A of the specification: four blocks, start index 2, length 3 give the
  blocks 2, 3, 0.
\<close>

theorem extract_checkpoint_ring_buffer_witness:
  "extract_checkpoint area4 4 2 3 = Some [blank\<lparr>o_xid := 2\<rparr>, blank\<lparr>o_xid := 3\<rparr>, blank\<lparr>o_xid := 0\<rparr>]
   \<and> extract_checkpoint area4 4 1 3 = Some [blank\<lparr>o_xid := 1\<rparr>, blank\<lparr>o_xid := 2\<rparr>, blank\<lparr>o_xid := 3\<rparr>]"
proof -
  have a: "length area4 = unat (4 :: 32 word)" by (simp add: area4_def)
  have b: "unat (4 :: 32 word) < 2 ^ 31" by simp
  have c: "unat (4 :: 32 word) < unat (2 :: 32 word) + unat (3 :: 32 word) \<longrightarrow>
      unat (2 :: 32 word) \<le> unat (4 :: 32 word) \<and>
      unat (3 :: 32 word) - (unat (4 :: 32 word) - unat (2 :: 32 word)) \<le> unat (4 :: 32 word)"
    by simp
  have d: "unat (4 :: 32 word) < unat (1 :: 32 word) + unat (3 :: 32 word) \<longrightarrow>
      unat (1 :: 32 word) \<le> unat (4 :: 32 word) \<and>
      unat (3 :: 32 word) - (unat (4 :: 32 word) - unat (1 :: 32 word)) \<le> unat (4 :: 32 word)"
    by simp
  from extract_checkpoint_ring_buffer [OF a b c] extract_checkpoint_ring_buffer [OF a b d]
  show ?thesis by (simp add: area4_def)
qed

text \<open>
  The claim as it is written, for every start index and length, fails: in an area of
  four blocks, start index 2 and length 10 are in the wrapping case, the second segment
  has 8 blocks, and the copy of it leaves the area. No sequence of 10 blocks results.
\<close>

theorem extract_checkpoint_counterexample:
  "length area4 = unat (4 :: 32 word) \<and> unat (4 :: 32 word) < unat (2 :: 32 word) + unat (10 :: 32 word)
   \<and> extract_checkpoint area4 4 2 10 = None"
  by (simp add: area4_def extract_checkpoint_def memcpy_blocks_def Let_def)

section \<open>The scan for the latest superblock\<close>

text \<open>
  One step of the scan moves the candidate to \<open>i\<close> exactly when block \<open>i\<close> is a
  well-formed superblock whose transaction identifier is strictly greater than the one
  read from the current candidate.
\<close>

lemma scan_step_eq:
  "scan_step K xs c i =
     (if valid_nx_superblock K (xs ! i) \<and> o_xid (xs ! c) < o_xid (xs ! i) then i else c)"
  by (simp add: scan_step_def valid_nx_superblock_def)

lemma scan_prefix:
  "n \<le> length xs \<Longrightarrow>
     (let c = foldl (scan_step K xs) 0 [0..<n] in
        (c = 0 \<or> c < n \<and> valid_nx_superblock K (xs ! c)) \<and>
        (\<forall>j<n. valid_nx_superblock K (xs ! j) \<longrightarrow> o_xid (xs ! j) \<le> o_xid (xs ! c)) \<and>
        (\<forall>j<c. valid_nx_superblock K (xs ! j) \<longrightarrow> o_xid (xs ! j) < o_xid (xs ! c)))"
proof (induction n)
  case 0
  then show ?case by simp
next
  case (Suc n)
  define c where "c = foldl (scan_step K xs) 0 [0..<n]"
  from Suc have
    c1: "c = 0 \<or> c < n \<and> valid_nx_superblock K (xs ! c)" and
    c2: "\<And>j. j < n \<Longrightarrow> valid_nx_superblock K (xs ! j) \<Longrightarrow> o_xid (xs ! j) \<le> o_xid (xs ! c)" and
    c3: "\<And>j. j < c \<Longrightarrow> valid_nx_superblock K (xs ! j) \<Longrightarrow> o_xid (xs ! j) < o_xid (xs ! c)"
    by (simp_all add: c_def Let_def)
  have step: "foldl (scan_step K xs) 0 [0..<Suc n] = scan_step K xs c n"
    by (simp add: c_def)
  show ?case
  proof (cases "valid_nx_superblock K (xs ! n) \<and> o_xid (xs ! c) < o_xid (xs ! n)")
    case True
    then have new: "scan_step K xs c n = n" by (simp add: scan_step_eq)
    have lt: "\<And>j. j < n \<Longrightarrow> valid_nx_superblock K (xs ! j) \<Longrightarrow> o_xid (xs ! j) < o_xid (xs ! n)"
      using c2 True by (meson order_le_less_trans)
    then have "\<And>j. j < n \<Longrightarrow> valid_nx_superblock K (xs ! j) \<Longrightarrow> o_xid (xs ! j) \<le> o_xid (xs ! n)"
      by (meson order_less_imp_le)
    with lt show ?thesis
      unfolding Let_def step new using True by (auto simp: less_Suc_eq)
  next
    case False
    then have old: "scan_step K xs c n = c" by (auto simp: scan_step_eq)
    have "valid_nx_superblock K (xs ! n) \<Longrightarrow> o_xid (xs ! n) \<le> o_xid (xs ! c)"
      using False by auto
    then show ?thesis
      unfolding Let_def step old using c1 c2 c3 by (auto simp: less_Suc_eq)
  qed
qed

text \<open>
  What the scan guarantees: the index it ends with is 0 or that of a well-formed
  superblock; no well-formed superblock has a greater transaction identifier than the
  block at that index, and every well-formed superblock before it has a strictly
  smaller one. Index 0 is the candidate the loop starts with, and nothing checks it.
\<close>

lemma scan_latest_props:
  "(scan_latest K xs = 0 \<or>
      scan_latest K xs < length xs \<and> valid_nx_superblock K (xs ! scan_latest K xs)) \<and>
   (\<forall>j<length xs. valid_nx_superblock K (xs ! j) \<longrightarrow>
      o_xid (xs ! j) \<le> o_xid (xs ! scan_latest K xs)) \<and>
   (\<forall>j < scan_latest K xs. valid_nx_superblock K (xs ! j) \<longrightarrow>
      o_xid (xs ! j) < o_xid (xs ! scan_latest K xs))"
  using scan_prefix [of "length xs" xs K] by (simp add: scan_latest_def Let_def)

text \<open>
  So the scan finds the well-formed superblock of greatest transaction identifier, the
  first one among equals, as soon as block 0 is itself well formed or carries a smaller
  identifier than some well-formed superblock.
\<close>

lemma scan_latest_greatest:
  assumes "j < length xs" and "valid_nx_superblock K (xs ! j)"
    and "valid_nx_superblock K (xs ! 0) \<or> o_xid (xs ! 0) < o_xid (xs ! j)"
  shows "scan_latest K xs < length xs \<and> valid_nx_superblock K (xs ! scan_latest K xs) \<and>
         (\<forall>k<length xs. valid_nx_superblock K (xs ! k) \<longrightarrow>
            o_xid (xs ! k) \<le> o_xid (xs ! scan_latest K xs)) \<and>
         (\<forall>k < scan_latest K xs. valid_nx_superblock K (xs ! k) \<longrightarrow>
            o_xid (xs ! k) < o_xid (xs ! scan_latest K xs))"
proof -
  note p = scan_latest_props [of K xs]
  have "scan_latest K xs < length xs \<and> valid_nx_superblock K (xs ! scan_latest K xs)"
  proof (cases "scan_latest K xs = 0")
    case False
    with p show ?thesis by simp
  next
    case True
    from p assms(1,2) have "o_xid (xs ! j) \<le> o_xid (xs ! 0)" by (simp add: True)
    with assms(3) have "valid_nx_superblock K (xs ! 0)" by auto
    with True assms(1) show ?thesis by auto
  qed
  with p show ?thesis by simp
qed

text \<open>
  Claim C2 says that the scan never selects a block whose checksum is invalid or whose
  magic number is wrong, even if it has the greatest transaction identifier. The code
  does select such a block: in the area below, block 0 fails checksum validation and
  carries identifier 100, block 1 is a well-formed superblock of identifier 5, and the
  scan ends at index 0.
\<close>

theorem scan_selects_corrupt_block:
  "find_latest_superblock K0 [corrupt (sb 100 0 1), sb 5 1 1] = Inr (0, corrupt (sb 100 0 1))
   \<and> \<not> is_cksum_valid (corrupt (sb 100 0 1))
   \<and> valid_nx_superblock K0 (sb 5 1 1)"
  by (simp add: find_latest_superblock_def scan_latest_def scan_step_def valid_nx_superblock_def
      K0_def sb_def blank_def corrupt_def upt_rec)

text \<open>
  Claim C3 says that among well-formed superblocks of distinct transaction identifiers
  the one of greatest identifier is selected, wherever the blocks lie. In the area
  below, the checkpoint of transaction 12 occupies indices 0 and 1 (its checkpoint map
  first) and the one of transaction 10 indices 2 and 3. The superblock of identifier 12
  at index 1 is not strictly greater than the identifier 12 read from the checkpoint
  map at index 0, and the scan ends at index 0, a checkpoint map.
\<close>

theorem scan_misses_greatest_superblock:
  "find_latest_superblock K0 [cpm 12 [], sb 12 0 2, cpm 10 [], sb 10 2 2] = Inr (0, cpm 12 [])
   \<and> valid_nx_superblock K0 (sb 12 0 2) \<and> valid_nx_superblock K0 (sb 10 2 2)
   \<and> \<not> is_nx_superblock (cpm 12 [])"
  by (simp add: find_latest_superblock_def scan_latest_def scan_step_def valid_nx_superblock_def
      K0_def sb_def cpm_def blank_def upt_rec)

text \<open>
  Claim C4 says that the search fails when the area holds no well-formed superblock.
  The code has no such failure: in the area below (a block that fails checksum
  validation, then a checkpoint map) the scan returns block 0 as the superblock.
\<close>

theorem scan_without_superblock_returns_block0:
  "find_latest_superblock K0 [corrupt blank, cpm 3 []] = Inr (0, corrupt blank)
   \<and> \<not> valid_nx_superblock K0 (corrupt blank) \<and> \<not> valid_nx_superblock K0 (cpm 3 [])"
  by (simp add: find_latest_superblock_def scan_latest_def scan_step_def valid_nx_superblock_def
      K0_def cpm_def blank_def corrupt_def upt_rec)

section \<open>The loops over the checkpoint\<close>

text \<open>
  The mapping count is the sum of the entry counts modulo \<open>2 ^ 32\<close>, and the sum itself
  when that is below \<open>2 ^ 32\<close>. The collected mappings are as many as the sum.
\<close>

lemma count_mappings_mod:
  "unat (count_mappings xp acc) = (unat acc + total_cpm_count xp) mod 2 ^ 32"
proof (induction xp arbitrary: acc)
  case Nil
  show ?case using unsigned_less [of acc, where 'a = nat] by (simp add: total_cpm_count_def)
next
  case (Cons b bs)
  show ?case
  proof (cases "is_checkpoint_map_phys b")
    case True
    have "unat (count_mappings (b # bs) acc) = (unat (acc + cpm_count b) + total_cpm_count bs) mod 2 ^ 32"
      using True Cons.IH by simp
    also have "\<dots> = ((unat acc + unat (cpm_count b)) mod 2 ^ 32 + total_cpm_count bs) mod 2 ^ 32"
      by (simp add: unat_word_ariths)
    also have "\<dots> = (unat acc + unat (cpm_count b) + total_cpm_count bs) mod 2 ^ 32"
      by (simp add: mod_add_left_eq)
    finally show ?thesis
      using True by (simp add: total_cpm_count_def add.assoc)
  next
    case False
    then show ?thesis using Cons.IH by (simp add: total_cpm_count_def)
  qed
qed

lemma count_mappings_exact:
  "total_cpm_count xp < 2 ^ 32 \<Longrightarrow> unat (count_mappings xp 0) = total_cpm_count xp"
  by (simp add: count_mappings_mod)


text \<open>
  A load that gets through has read every mapping the checkpoint lists, one block per
  mapping and in order, and has filled no more than the buffer.
\<close>

lemma load_mappings_Inr:
  "load_mappings E cap b rest js xp_obj tr = (Inr objs, tr') \<Longrightarrow> length xp_obj \<le> cap \<Longrightarrow>
     length objs = length xp_obj + length js \<and> length objs \<le> cap \<and>
     tr' = tr @ fetches (map (mapping_at E b rest) js)"
proof (induction js arbitrary: xp_obj tr)
  case Nil
  then show ?case by (simp add: fetches_def)
next
  case (Cons j js)
  let ?a = "cpm_paddr (mapping_at E b rest j)"
  from Cons.prems have ok: "length xp_obj < cap" "length (read_blocks E ?a 1) = 1"
    and rec: "load_mappings E cap b rest js (xp_obj @ read_blocks E ?a 1) (tr @ [(?a, 1)]) = (Inr objs, tr')"
    by (auto simp: Let_def split: if_splits)
  from Cons.IH [OF rec] ok show ?case
    by (auto simp: fetches_def)
qed

lemma load_all_Inr:
  "load_all E cap xp xp_obj tr = (Inr objs, tr') \<Longrightarrow> length xp_obj \<le> cap \<Longrightarrow>
     length objs = length xp_obj + total_cpm_count xp \<and> length objs \<le> cap \<and>
     tr' = tr @ fetches (collect_mappings E xp)"
proof (induction xp arbitrary: xp_obj tr)
  case Nil
  then show ?case by (simp add: total_cpm_count_def fetches_def)
next
  case (Cons b bs)
  show ?case
  proof (cases "is_checkpoint_map_phys b")
    case False
    with Cons.prems have "load_all E cap bs xp_obj tr = (Inr objs, tr')" by simp
    from Cons.IH [OF this Cons.prems(2)] False show ?thesis
      by (simp add: total_cpm_count_def)
  next
    case True
    let ?n = "unat (cpm_count b)"
    from True Cons.prems obtain mid trm where
      inner: "load_mappings E cap b bs [0..<?n] xp_obj tr = (Inr mid, trm)" and
      rest: "load_all E cap bs mid trm = (Inr objs, tr')"
      by (auto simp: and_then_def split: prod.splits sum.splits)
    from load_mappings_Inr [OF inner Cons.prems(2)] have
      lmid: "length mid = length xp_obj + ?n" and cap1: "length mid \<le> cap"
      and trm: "trm = tr @ fetches (map (mapping_at E b bs) [0..<?n])"
      by auto
    from Cons.IH [OF rest cap1] lmid trm True show ?thesis
      by (auto simp: total_cpm_count_def fetches_def)
  qed
qed

text \<open>
  The load gets through whenever the buffer has room for the mappings listed and every
  fetch delivers its block.
\<close>

lemma load_mappings_completes:
  "length xp_obj + length js \<le> cap \<Longrightarrow>
   \<forall>j\<in>set js. length (read_blocks E (cpm_paddr (mapping_at E b rest j)) 1) = 1 \<Longrightarrow>
     \<exists>objs. load_mappings E cap b rest js xp_obj tr =
              (Inr objs, tr @ fetches (map (mapping_at E b rest) js)) \<and>
            length objs = length xp_obj + length js"
proof (induction js arbitrary: xp_obj tr)
  case Nil
  then show ?case by (simp add: fetches_def)
next
  case (Cons j js)
  let ?a = "cpm_paddr (mapping_at E b rest j)"
  from Cons.prems have one: "length (read_blocks E ?a 1) = 1" and room: "length xp_obj < cap"
    by simp_all
  have "length (xp_obj @ read_blocks E ?a 1) + length js \<le> cap"
    using Cons.prems(1) one by simp
  moreover have "\<forall>j\<in>set js. length (read_blocks E (cpm_paddr (mapping_at E b rest j)) 1) = 1"
    using Cons.prems(2) by simp
  ultimately obtain objs where
    "load_mappings E cap b rest js (xp_obj @ read_blocks E ?a 1) (tr @ [(?a, 1)]) =
       (Inr objs, (tr @ [(?a, 1)]) @ fetches (map (mapping_at E b rest) js))"
    "length objs = length (xp_obj @ read_blocks E ?a 1) + length js"
    using Cons.IH by blast
  with one room show ?case
    by (simp add: Let_def fetches_def)
qed

lemma load_all_completes:
  "length xp_obj + total_cpm_count xp \<le> cap \<Longrightarrow>
   \<forall>m\<in>set (collect_mappings E xp). length (read_blocks E (cpm_paddr m) 1) = 1 \<Longrightarrow>
     \<exists>objs. load_all E cap xp xp_obj tr = (Inr objs, tr @ fetches (collect_mappings E xp)) \<and>
            length objs = length xp_obj + total_cpm_count xp"
proof (induction xp arbitrary: xp_obj tr)
  case Nil
  then show ?case by (simp add: total_cpm_count_def fetches_def)
next
  case (Cons b bs)
  show ?case
  proof (cases "is_checkpoint_map_phys b")
    case False
    with Cons.prems have "length xp_obj + total_cpm_count bs \<le> cap"
      "\<forall>m\<in>set (collect_mappings E bs). length (read_blocks E (cpm_paddr m) 1) = 1"
      by (simp_all add: total_cpm_count_def)
    from Cons.IH [OF this] False show ?thesis
      by (simp add: total_cpm_count_def)
  next
    case True
    let ?n = "unat (cpm_count b)"
    let ?ms = "map (mapping_at E b bs) [0..<?n]"
    have tot: "total_cpm_count (b # bs) = ?n + total_cpm_count bs"
      using True by (simp add: total_cpm_count_def)
    have "length xp_obj + length [0..<?n] \<le> cap"
      using Cons.prems(1) tot by simp
    moreover have "\<forall>j\<in>set [0..<?n]. length (read_blocks E (cpm_paddr (mapping_at E b bs j)) 1) = 1"
      using Cons.prems(2) True by simp
    ultimately obtain mid where
      inner: "load_mappings E cap b bs [0..<?n] xp_obj tr = (Inr mid, tr @ fetches ?ms)" and
      lmid: "length mid = length xp_obj + ?n"
      using load_mappings_completes [of xp_obj "[0..<?n]" cap E b bs tr] by auto
    have "length mid + total_cpm_count bs \<le> cap"
      using Cons.prems(1) tot lmid by simp
    moreover have "\<forall>m\<in>set (collect_mappings E bs). length (read_blocks E (cpm_paddr m) 1) = 1"
      using Cons.prems(2) True by simp
    ultimately obtain objs where
      "load_all E cap bs mid (tr @ fetches ?ms) =
         (Inr objs, (tr @ fetches ?ms) @ fetches (collect_mappings E bs))"
      "length objs = length mid + total_cpm_count bs"
      using Cons.IH by blast
    with inner lmid tot True show ?thesis
      by (simp add: and_then_def fetches_def)
  qed
qed

text \<open>The outcomes the loading loops can end with.\<close>

lemma load_mappings_Inl:
  "load_mappings E cap b rest js xp_obj tr = (Inl e, tr') \<Longrightarrow>
     e = MemoryFault \<or> (\<exists>a. e = AbortReadEphemeral a)"
  by (induction js arbitrary: xp_obj tr) (auto simp: Let_def split: if_splits)

lemma load_all_Inl:
  "load_all E cap xp xp_obj tr = (Inl e, tr') \<Longrightarrow>
     e = MemoryFault \<or> (\<exists>a. e = AbortReadEphemeral a)"
proof (induction xp arbitrary: xp_obj tr)
  case Nil
  then show ?case by simp
next
  case (Cons b bs)
  show ?case
  proof (cases "is_checkpoint_map_phys b")
    case False
    with Cons show ?thesis by simp
  next
    case True
    show ?thesis
    proof (cases "load_mappings E cap b bs [0..<unat (cpm_count b)] xp_obj tr")
      case (Pair r trm)
      show ?thesis
      proof (cases r)
        case (Inl e')
        with Pair True Cons.prems have "e' = e" by (simp add: and_then_def)
        with Pair Inl load_mappings_Inl show ?thesis by blast
      next
        case (Inr mid)
        with Pair True Cons.prems have "load_all E cap bs mid trm = (Inl e, tr')"
          by (simp add: and_then_def)
        then show ?thesis by (rule Cons.IH)
      qed
    qed
  qed
qed

text \<open>Reads are only ever added at the end of the list.\<close>

lemma load_mappings_grows:
  "load_mappings E cap b rest js xp_obj tr = (r, tr') \<Longrightarrow> \<exists>ext. tr' = tr @ ext"
proof (induction js arbitrary: xp_obj tr)
  case Nil
  then show ?case by simp
next
  case (Cons j js)
  let ?a = "cpm_paddr (mapping_at E b rest j)"
  show ?case
  proof (cases "length (read_blocks E ?a 1) = 1 \<and> length xp_obj < cap")
    case False
    with Cons.prems show ?thesis by (auto simp: Let_def split: if_splits)
  next
    case True
    with Cons.prems
    have "load_mappings E cap b rest js (xp_obj @ read_blocks E ?a 1) (tr @ [(?a, 1)]) = (r, tr')"
      by (simp add: Let_def)
    from Cons.IH [OF this] show ?thesis by auto
  qed
qed

lemma load_all_grows:
  "load_all E cap xp xp_obj tr = (r, tr') \<Longrightarrow> \<exists>ext. tr' = tr @ ext"
proof (induction xp arbitrary: xp_obj tr)
  case Nil
  then show ?case by simp
next
  case (Cons b bs)
  show ?case
  proof (cases "is_checkpoint_map_phys b")
    case False
    with Cons show ?thesis by simp
  next
    case True
    obtain r1 trm where inner: "load_mappings E cap b bs [0..<unat (cpm_count b)] xp_obj tr = (r1, trm)"
      by (cases "load_mappings E cap b bs [0..<unat (cpm_count b)] xp_obj tr")
    from load_mappings_grows [OF inner] obtain e1 where e1: "trm = tr @ e1" ..
    show ?thesis
    proof (cases r1)
      case (Inl e)
      with inner True Cons.prems e1 show ?thesis by (auto simp: and_then_def)
    next
      case (Inr mid)
      with inner True Cons.prems have "load_all E cap bs mid trm = (r, tr')"
        by (simp add: and_then_def)
      from Cons.IH [OF this] e1 show ?thesis by auto
    qed
  qed
qed

lemma finish_grows: "finish K E L tr = (r, tr') \<Longrightarrow> \<exists>ext. tr' = tr @ ext"
  by (auto simp: finish_def Let_def split: if_splits)

lemma finish_not_classification: "finish K E L tr = (Inl e, tr') \<Longrightarrow> e \<noteq> AssertClassification"
  by (auto simp: finish_def Let_def split: if_splits)

text \<open>The two checking loops, as predicates on the whole list.\<close>

lemma validate_all_iff: "validate_all objs = list_all is_cksum_valid objs"
  by (induction objs) simp_all

lemma describe_blocks_iff:
  "describe_blocks xp = list_all (\<lambda>b. is_nx_superblock b \<or> is_checkpoint_map_phys b) xp"
  by (induction xp) auto

section \<open>The run, stage by stage\<close>

lemma mask_const: "NOT (push_bit 31 1) = (0x7FFFFFFF :: 32 word)"
  by simp

lemma xp_desc_blocks_of_mask: "xp_desc_blocks_of b = nx_xp_desc_blocks b AND 0x7FFFFFFF"
  by (simp only: xp_desc_blocks_of_def mask_const)

lemma read_block0_Inr:
  "read_block0 E = (Inr nxsb, tr0) \<Longrightarrow> nxsb = hd (read_blocks E 0 1) \<and> tr0 = [(0, 1)]"
  by (auto simp: read_block0_def Let_def split: if_splits option.splits)

lemma load_xp_desc_Inr:
  "load_xp_desc E nxsb tr = (Inr xp_desc, tr1) \<Longrightarrow>
     \<not> is_indirect nxsb \<and> length xp_desc = unat (xp_desc_blocks_of nxsb) \<and>
     tr1 = tr @ [(nx_xp_desc_base nxsb, unat (xp_desc_blocks_of nxsb))]"
  by (auto simp: load_xp_desc_def Let_def split: if_splits)

text \<open>After the descriptor area is read, materializing the checkpoint reads nothing.\<close>

lemma materialize_after_xp_desc:
  assumes "read_block0 E = (Inr nxsb0, tr0)" and "load_xp_desc E nxsb0 tr0 = (Inr xp_desc, tr1)"
  shows "materialize K E = (Inl MemoryFault, tr1) \<or> materialize K E = (Inl (AbortAlloc S_xp), tr1) \<or>
         (\<exists>i xp. find_latest_superblock K xp_desc = Inr (i, xp_desc ! i) \<and>
                 extract_checkpoint xp_desc (xp_desc_blocks_of nxsb0)
                   (nx_xp_desc_index (xp_desc ! i)) (nx_xp_desc_len (xp_desc ! i)) = Some xp \<and>
                 materialize K E = (Inr (xp_desc ! i, xp), tr1))"
  using assms
  by (auto simp: materialize_def and_then_def find_latest_superblock_def Let_def
      split: option.splits)

lemma materialize_Inr:
  assumes "materialize K E = (Inr p, tr)"
  shows "\<exists>nxsb0. read_block0 E = (Inr nxsb0, [(0, 1)]) \<and>
           tr = [(0, 1), (nx_xp_desc_base nxsb0, unat (xp_desc_blocks_of nxsb0))]"
proof (cases "read_block0 E")
  case (Pair r0 tr0)
  show ?thesis
  proof (cases r0)
    case (Inl e)
    with Pair assms show ?thesis by (simp add: materialize_def and_then_def)
  next
    case (Inr nxsb0)
    with Pair read_block0_Inr have tr0: "tr0 = [(0, 1)]" by blast
    show ?thesis
    proof (cases "load_xp_desc E nxsb0 tr0")
      case (Pair r1 tr1)
      show ?thesis
      proof (cases r1)
        case (Inl e)
        with Pair \<open>read_block0 E = (r0, tr0)\<close> Inr assms show ?thesis
          by (simp add: materialize_def and_then_def)
      next
        case (Inr xp_desc)
        with Pair load_xp_desc_Inr
        have tr1: "tr1 = tr0 @ [(nx_xp_desc_base nxsb0, unat (xp_desc_blocks_of nxsb0))]"
          by blast
        have "tr = tr1"
          using materialize_after_xp_desc [of E nxsb0 tr0 xp_desc tr1 K] assms
            \<open>read_block0 E = (r0, tr0)\<close> \<open>r0 = Inr nxsb0\<close> Pair Inr
          by auto
        with tr0 tr1 \<open>read_block0 E = (r0, tr0)\<close> \<open>r0 = Inr nxsb0\<close> show ?thesis by simp
      qed
    qed
  qed
qed

text \<open>What a run that got as far as the loaded ephemeral objects has done.\<close>

lemma load_ephemeral_Inr:
  assumes "load_ephemeral K E = (Inr L, tr')"
  shows "\<exists>tr. materialize K E = (Inr (l_nxsb L, l_xp L), tr) \<and>
           describe_blocks (l_xp L) \<and>
           l_xp_obj_len L = count_mappings (l_xp L) 0 \<and>
           load_all E (unat (l_xp_obj_len L)) (l_xp L) [] tr = (Inr (l_xp_obj L), tr')"
proof (cases "materialize K E")
  case (Pair r tr)
  show ?thesis
  proof (cases r)
    case (Inl e)
    with Pair assms show ?thesis by (simp add: load_ephemeral_def and_then_def)
  next
    case (Inr p)
    obtain nxsb xp where p: "p = (nxsb, xp)" by (cases p)
    from assms Pair Inr p show ?thesis
      by (auto simp: load_ephemeral_def and_then_def Let_def
          split: if_splits prod.splits sum.splits)
  qed
qed

lemma loaded_count:
  assumes "load_all E (unat (count_mappings xp 0)) xp [] tr = (Inr objs, tr')"
  shows "unat (count_mappings xp 0) = total_cpm_count xp \<and> length objs = total_cpm_count xp"
proof -
  from load_all_Inr [OF assms] have
    "length objs = total_cpm_count xp" "length objs \<le> unat (count_mappings xp 0)"
    by simp_all
  moreover have "unat (count_mappings xp 0) \<le> total_cpm_count xp"
    by (simp add: count_mappings_mod)
  ultimately show ?thesis by simp
qed

lemma loaded_length:
  assumes "load_ephemeral K E = (Inr L, tr)"
  shows "length (l_xp_obj L) = unat (l_xp_obj_len L)"
proof -
  from load_ephemeral_Inr [OF assms] obtain tr0 where
    "l_xp_obj_len L = count_mappings (l_xp L) 0"
    "load_all E (unat (l_xp_obj_len L)) (l_xp L) [] tr0 = (Inr (l_xp_obj L), tr)"
    by blast
  then show ?thesis
    using loaded_count [of E "l_xp L" tr0 "l_xp_obj L" tr] by simp
qed

text \<open>
  The loading gets through whenever the run reaches it, the entry counts do not
  overflow the mapping count, and every fetch delivers its block.
\<close>

lemma load_ephemeral_completes:
  assumes "materialize K E = (Inr (nxsb, xp), tr)" and "describe_blocks xp"
    and "malloc_ok E S_xp_obj (unat (count_mappings xp 0))"
    and "total_cpm_count xp < 2 ^ 32"
    and "\<forall>m\<in>set (collect_mappings E xp). length (read_blocks E (cpm_paddr m) 1) = 1"
  shows "\<exists>objs. load_ephemeral K E =
           (Inr \<lparr>l_nxsb = nxsb, l_xp = xp, l_xp_obj_len = count_mappings xp 0, l_xp_obj = objs\<rparr>,
            tr @ fetches (collect_mappings E xp)) \<and>
           length objs = total_cpm_count xp"
proof -
  have "length ([] :: block list) + total_cpm_count xp \<le> unat (count_mappings xp 0)"
    using assms(4) by (simp add: count_mappings_exact)
  from load_all_completes [OF this assms(5), of tr] obtain objs where
    "load_all E (unat (count_mappings xp 0)) xp [] tr = (Inr objs, tr @ fetches (collect_mappings E xp))"
    "length objs = total_cpm_count xp"
    by auto
  with assms(1-3) show ?thesis
    by (simp add: load_ephemeral_def and_then_def Let_def)
qed

lemma finish_malformed:
  assumes "length (l_xp_obj L) = unat (l_xp_obj_len L)"
    and "\<exists>obj\<in>set (l_xp_obj L). \<not> is_cksum_valid obj"
  shows "finish K E L tr = (Inl EndEphemeralMalformed, tr)"
proof -
  from assms have "l_xp_obj L \<noteq> []" by auto
  with assms(1) have "l_xp_obj_len L \<noteq> 0" by auto
  moreover have "\<not> validate_all (l_xp_obj L)"
    using assms(2) by (simp add: validate_all_iff list_all_iff)
  ultimately show ?thesis
    using assms(1) by (simp add: finish_def)
qed

lemma main_materialize_Inl: "materialize K E = (Inl e, tr) \<Longrightarrow> main K E = (e, tr)"
  by (simp add: main_def load_ephemeral_def and_then_def)

lemma main_load_ephemeral_Inr:
  "load_ephemeral K E = (Inr L, tr) \<Longrightarrow>
     main K E = (case finish K E L tr of (Inl e, tr') \<Rightarrow> (e, tr') | (Inr u, tr') \<Rightarrow> (EndAllDone, tr'))"
  by (simp add: main_def and_then_def)

lemma main_load_ephemeral_Inl: "load_ephemeral K E = (Inl e, tr) \<Longrightarrow> main K E = (e, tr)"
  by (simp add: main_def and_then_def)

lemma main_assert_classification:
  assumes "materialize K E = (Inr (nxsb, xp), tr)" and "\<not> describe_blocks xp"
  shows "main K E = (AssertClassification, tr)"
  using assms by (simp add: main_def load_ephemeral_def and_then_def)

lemma main_not_assert_classification:
  assumes m: "materialize K E = (Inr (nxsb, xp), tr)" and d: "describe_blocks xp"
  shows "fst (main K E) \<noteq> AssertClassification"
proof (cases "load_ephemeral K E")
  case (Pair r tr')
  show ?thesis
  proof (cases r)
    case (Inr L)
    with Pair have mn: "main K E = (case finish K E L tr' of (Inl e, t) \<Rightarrow> (e, t) | (Inr u, t) \<Rightarrow> (EndAllDone, t))"
      by (simp add: main_load_ephemeral_Inr)
    show ?thesis
    proof (cases "finish K E L tr'")
      case (Pair r2 t2)
      then show ?thesis
        using mn finish_not_classification [of K E L tr' _ t2]
        by (cases r2) auto
    qed
  next
    case (Inl e)
    with Pair have mn: "main K E = (e, tr')" by (simp add: main_load_ephemeral_Inl)
    have "e \<noteq> AssertClassification"
    proof (cases "malloc_ok E S_xp_obj (unat (count_mappings xp 0))")
      case False
      with Pair Inl m d show ?thesis
        by (auto simp: load_ephemeral_def and_then_def Let_def)
    next
      case True
      with Pair Inl m d obtain r3 where
        "load_all E (unat (count_mappings xp 0)) xp [] tr = (Inl e, tr')"
        by (auto simp: load_ephemeral_def and_then_def Let_def split: prod.splits sum.splits)
      from load_all_Inl [OF this] show ?thesis by auto
    qed
    with mn show ?thesis by simp
  qed
qed

lemma main_stops_at_xp_desc:
  assumes "read_block0 E = (Inr nxsb, tr0)" and "load_xp_desc E nxsb tr0 = (Inl e, tr1)"
  shows "main K E = (e, tr1)"
  using assms by (simp add: main_def load_ephemeral_def materialize_def and_then_def)

lemma load_ephemeral_grows:
  assumes "materialize K E = (Inr p, tr)" and "load_ephemeral K E = (r, tr')"
  shows "\<exists>ext. tr' = tr @ ext"
proof -
  obtain nxsb xp where p: "p = (nxsb, xp)" by (cases p)
  show ?thesis
  proof (cases "describe_blocks xp \<and> malloc_ok E S_xp_obj (unat (count_mappings xp 0))")
    case False
    with assms p show ?thesis
      by (auto simp: load_ephemeral_def and_then_def Let_def split: if_splits)
  next
    case True
    obtain r1 t1 where l: "load_all E (unat (count_mappings xp 0)) xp [] tr = (r1, t1)"
      by (cases "load_all E (unat (count_mappings xp 0)) xp [] tr")
    from load_all_grows [OF l] obtain ext where "t1 = tr @ ext" ..
    with True assms p l show ?thesis
      by (cases r1) (auto simp: load_ephemeral_def and_then_def Let_def)
  qed
qed

lemma main_grows_load_ephemeral:
  assumes "load_ephemeral K E = (r, tr)"
  shows "\<exists>ext. snd (main K E) = tr @ ext"
proof (cases r)
  case (Inl e)
  with assms show ?thesis by (simp add: main_load_ephemeral_Inl)
next
  case (Inr L)
  obtain r2 t2 where f: "finish K E L tr = (r2, t2)" by (cases "finish K E L tr")
  from finish_grows [OF f] obtain ext where "t2 = tr @ ext" ..
  with f Inr assms show ?thesis
    by (cases r2) (simp_all add: main_load_ephemeral_Inr)
qed

lemma main_grows_xp_desc:
  assumes r0: "read_block0 E = (Inr nxsb, tr0)" and r1: "load_xp_desc E nxsb tr0 = (Inr xp_desc, tr1)"
  shows "\<exists>ext. snd (main K E) = tr1 @ ext"
proof (cases "materialize K E")
  case (Pair r tr)
  have tr: "tr = tr1"
    using materialize_after_xp_desc [OF r0 r1, of K] Pair by auto
  show ?thesis
  proof (cases r)
    case (Inl e)
    with Pair tr show ?thesis by (simp add: main_materialize_Inl)
  next
    case (Inr p)
    obtain r2 t2 where l: "load_ephemeral K E = (r2, t2)" by (cases "load_ephemeral K E")
    from load_ephemeral_grows [OF _ l] Pair Inr obtain e1 where "t2 = tr @ e1" by blast
    moreover from main_grows_load_ephemeral [OF l] obtain e2 where "snd (main K E) = t2 @ e2" ..
    ultimately show ?thesis using tr by simp
  qed
qed

text \<open>
  The blocks of the checkpoint are blocks of the descriptor area, so a descriptor area
  in which every block classifies as a superblock or as a checkpoint map cannot make
  the assertion of line 187 fail.
\<close>

lemma memcpy_blocks_set: "memcpy_blocks src off n = Some xs \<Longrightarrow> set xs \<subseteq> set src"
  by (auto simp: memcpy_blocks_def split: if_splits dest: in_set_takeD in_set_dropD)

lemma extract_checkpoint_set:
  "extract_checkpoint xp_desc bc idx n = Some xp \<Longrightarrow> set xp \<subseteq> set xp_desc"
  by (auto simp: extract_checkpoint_def Let_def split: if_splits option.splits
      dest: memcpy_blocks_set [THEN subsetD])

lemma classified_area_passes_assertion:
  assumes r0: "read_block0 E = (Inr nxsb0, tr0)"
    and r1: "load_xp_desc E nxsb0 tr0 = (Inr xp_desc, tr1)"
    and cl: "list_all (\<lambda>b. is_nx_superblock b \<or> is_checkpoint_map_phys b) xp_desc"
  shows "fst (main K E) \<noteq> AssertClassification"
proof -
  from materialize_after_xp_desc [OF r0 r1, of K] consider
    e where "materialize K E = (Inl e, tr1)" "e \<noteq> AssertClassification"
    | i xp where "extract_checkpoint xp_desc (xp_desc_blocks_of nxsb0)
          (nx_xp_desc_index (xp_desc ! i)) (nx_xp_desc_len (xp_desc ! i)) = Some xp"
        "materialize K E = (Inr (xp_desc ! i, xp), tr1)"
    by auto
  then show ?thesis
  proof cases
    case 1
    then show ?thesis by (simp add: main_materialize_Inl)
  next
    case 2
    from extract_checkpoint_set [OF 2(1)] cl have "describe_blocks xp"
      by (auto simp: describe_blocks_iff list_all_iff)
    from main_not_assert_classification [OF 2(2) this] show ?thesis .
  qed
qed

section \<open>The read log and the outcome\<close>

text \<open>
  Every stage keeps the log in step with its result: the only reads that come short
  are the ones the program aborts on.
\<close>

lemma delivered_Nil: "delivered E []"
  by (simp add: delivered_def)

lemma delivered_snoc: "delivered E (tr @ [r]) = (delivered E tr \<and> \<not> short_read E r)"
  by (simp add: delivered_def)

lemma log_fits_Inr: "log_fits E (Inr x, tr) = delivered E tr"
  by (simp add: log_fits_def)

lemma log_fits_Inl:
  "log_fits E (Inl e, tr) =
     (if kind_of e = Some IOError then \<not> delivered E tr else e = MemoryFault \<or> delivered E tr)"
  by (simp add: log_fits_def)

lemmas log_fits_simps = log_fits_Inr log_fits_Inl delivered_def short_read_def

lemma read_block0_fits: "log_fits E (read_block0 E)"
  by (simp add: read_block0_def Let_def log_fits_simps short_read_def split: option.splits)

lemma load_xp_desc_fits: "delivered E tr \<Longrightarrow> log_fits E (load_xp_desc E nxsb tr)"
  by (simp add: load_xp_desc_def Let_def log_fits_simps short_read_def)

lemma load_mappings_fits:
  "delivered E tr \<Longrightarrow> log_fits E (load_mappings E cap b rest js xp_obj tr)"
proof (induction js arbitrary: xp_obj tr)
  case Nil
  then show ?case by (simp add: log_fits_simps)
next
  case (Cons j js)
  let ?a = "cpm_paddr (mapping_at E b rest j)"
  show ?case
  proof (cases "length (read_blocks E ?a 1) = 1")
    case False
    with Cons.prems show ?thesis
      by (simp add: Let_def log_fits_simps short_read_def)
  next
    case True
    then have d: "delivered E (tr @ [(?a, 1)])"
      using Cons.prems by (simp add: delivered_snoc short_read_def)
    show ?thesis
    proof (cases "cap \<le> length xp_obj")
      case full: True
      with True show ?thesis by (simp add: Let_def log_fits_Inl)
    next
      case False
      with True Cons.IH [OF d, of "xp_obj @ read_blocks E ?a 1"] show ?thesis
        by (simp add: Let_def)
    qed
  qed
qed

lemma and_then_fits:
  assumes "log_fits E R" and "\<And>x tr. R = (Inr x, tr) \<Longrightarrow> delivered E tr \<Longrightarrow> log_fits E (f x tr)"
  shows "log_fits E (and_then R f)"
proof (cases R)
  case (Pair r tr)
  show ?thesis
  proof (cases r)
    case (Inl e)
    with Pair assms(1) show ?thesis by (simp add: and_then_def log_fits_Inl)
  next
    case (Inr x)
    with Pair assms(1) have "delivered E tr" by (simp add: log_fits_Inr)
    with Pair Inr assms(2) show ?thesis by (simp add: and_then_def)
  qed
qed

lemma load_all_fits:
  "delivered E tr \<Longrightarrow> log_fits E (load_all E cap xp xp_obj tr)"
proof (induction xp arbitrary: xp_obj tr)
  case Nil
  then show ?case by (simp add: log_fits_simps)
next
  case (Cons b bs)
  show ?case
  proof (cases "is_checkpoint_map_phys b")
    case False
    with Cons show ?thesis by simp
  next
    case True
    have "log_fits E (and_then (load_mappings E cap b bs [0..<unat (cpm_count b)] xp_obj tr)
        (\<lambda>xp_obj' tr'. load_all E cap bs xp_obj' tr'))"
      by (rule and_then_fits) (simp_all add: load_mappings_fits Cons.prems Cons.IH)
    with True show ?thesis by simp
  qed
qed

lemma materialize_tail_fits:
  assumes "delivered E tr"
  shows "log_fits E
      (case find_latest_superblock K xp_desc of
         Inl e \<Rightarrow> (Inl e, tr)
       | Inr (i_latest_nx, nxsb) \<Rightarrow>
           (if \<not> malloc_ok E S_xp (unat (nx_xp_desc_len nxsb)) then (Inl (AbortAlloc S_xp), tr)
            else (case extract_checkpoint xp_desc bc
                         (nx_xp_desc_index nxsb) (nx_xp_desc_len nxsb) of
                    None \<Rightarrow> (Inl MemoryFault, tr)
                  | Some xp \<Rightarrow> (Inr (nxsb, xp), tr))))"
  using assms
  by (auto simp: log_fits_simps find_latest_superblock_def Let_def split: option.splits)

lemma materialize_fits: "log_fits E (materialize K E)"
  unfolding materialize_def
  by (intro and_then_fits read_block0_fits load_xp_desc_fits materialize_tail_fits)

lemma load_ephemeral_tail_fits:
  assumes d: "delivered E tr"
  shows "log_fits E
      (if \<not> describe_blocks xp then (Inl AssertClassification, tr)
       else let xp_obj_len = count_mappings xp 0 in
         if \<not> malloc_ok E S_xp_obj (unat xp_obj_len) then (Inl (AbortAlloc S_xp_obj), tr)
         else and_then (load_all E (unat xp_obj_len) xp [] tr) (\<lambda>xp_obj tr'.
           (Inr \<lparr>l_nxsb = nxsb, l_xp = xp, l_xp_obj_len = xp_obj_len, l_xp_obj = xp_obj\<rparr>,
            tr')))"
proof -
  have "log_fits E (and_then (load_all E (unat (count_mappings xp 0)) xp [] tr)
      (\<lambda>xp_obj tr'. (Inr \<lparr>l_nxsb = nxsb, l_xp = xp, l_xp_obj_len = count_mappings xp 0,
         l_xp_obj = xp_obj\<rparr>, tr')))"
    by (rule and_then_fits [OF load_all_fits [OF d]]) (simp add: log_fits_Inr)
  with d show ?thesis
    by (simp add: Let_def log_fits_simps)
qed

lemma load_ephemeral_fits: "log_fits E (load_ephemeral K E)"
  unfolding load_ephemeral_def
proof (rule and_then_fits [OF materialize_fits])
  fix p :: "block \<times> block list" and tr
  assume "delivered E tr"
  from load_ephemeral_tail_fits [OF this]
  show "log_fits E
      ((\<lambda>(nxsb, xp) tr.
         if \<not> describe_blocks xp then (Inl AssertClassification, tr)
         else let xp_obj_len = count_mappings xp 0 in
           if \<not> malloc_ok E S_xp_obj (unat xp_obj_len) then (Inl (AbortAlloc S_xp_obj), tr)
           else and_then (load_all E (unat xp_obj_len) xp [] tr) (\<lambda>xp_obj tr'.
             (Inr \<lparr>l_nxsb = nxsb, l_xp = xp, l_xp_obj_len = xp_obj_len, l_xp_obj = xp_obj\<rparr>,
              tr'))) p tr)"
    by (cases p) simp
qed

lemma finish_fits: "delivered E tr \<Longrightarrow> log_fits E (finish K E L tr)"
  by (simp add: finish_def Let_def log_fits_simps short_read_def)

lemma main_log:
  "(kind_of (fst (main K E)) = Some IOError) =
     (\<not> delivered E (snd (main K E)) \<and> exit_status (fst (main K E)) \<noteq> None)"
proof -
  have fits: "log_fits E (and_then (load_ephemeral K E) (finish K E))"
    by (rule and_then_fits [OF load_ephemeral_fits]) (rule finish_fits)
  obtain r tr where R: "and_then (load_ephemeral K E) (finish K E) = (r, tr)"
    by (cases "and_then (load_ephemeral K E) (finish K E)")
  show ?thesis
  proof (cases r)
    case (Inr u)
    with R fits show ?thesis by (simp add: main_def log_fits_Inr)
  next
    case (Inl e)
    with R fits have "if kind_of e = Some IOError then \<not> delivered E tr
        else e = MemoryFault \<or> delivered E tr"
      by (simp add: log_fits_Inl)
    then have "(kind_of e = Some IOError) = (\<not> delivered E tr \<and> exit_status e \<noteq> None)"
      by (cases e) (auto split: if_splits)
    with R Inl show ?thesis by (simp add: main_def)
  qed
qed

section \<open>Runs on the example containers\<close>

lemmas example_defs = K0_def blank_def sb_def cpm_def corrupt_def eph_def image_env_def
  nxsb1_def container_with_def container_def cpm_overrun_def container_overrun_def
  container_reads_def nxsb_indirect_def small_heap_def nxsb_stray_def
  container_stray_def cpm_huge_def nxsb_huge_def container_huge_def

lemmas stage_defs = and_then_def materialize_def read_block0_def load_xp_desc_def
  xp_desc_blocks_of_def is_indirect_def find_latest_superblock_def scan_latest_def
  scan_step_def extract_checkpoint_def memcpy_blocks_def Let_def

lemma container_with_materialize:
  "materialize K0 (image_env (container_with addrs obj3)) =
     (Inr (nxsb1, [cpm 1 addrs, nxsb1]), [(0, 1), (1, 2)])"
  by (simp add: example_defs stage_defs upt_rec)

lemma container_materialize:
  "materialize K0 (image_env (container obj3)) =
     (Inr (nxsb1, [cpm 1 [3, 4, 5, 6, 7], nxsb1]), [(0, 1), (1, 2)])"
  by (simp add: container_def container_with_materialize)

lemma container_load_ephemeral:
  "load_ephemeral K0 (image_env (container obj3)) =
     (Inr \<lparr>l_nxsb = nxsb1, l_xp = [cpm 1 [3, 4, 5, 6, 7], nxsb1], l_xp_obj_len = 5,
            l_xp_obj = [eph, eph, obj3, eph, eph]\<rparr>, container_reads)"
  by (simp add: load_ephemeral_def container_materialize and_then_def Let_def)
     (simp add: example_defs upt_rec and_then_def mapping_at_def)

lemma container_main:
  "main K0 (image_env (container eph)) = (EndAllDone, container_reads @ [(8, 1), (9, 1)])"
  by (simp add: main_def container_load_ephemeral and_then_def finish_def Let_def)
     (simp add: example_defs)

lemma container_corrupt_main:
  "main K0 (image_env (container (corrupt eph))) = (EndEphemeralMalformed, container_reads)"
  by (simp add: main_def container_load_ephemeral and_then_def finish_def Let_def)
     (simp add: example_defs)

lemma overrun_load_ephemeral:
  "load_ephemeral K0 (image_env (container_overrun obj3)) =
     (Inr \<lparr>l_nxsb = nxsb1, l_xp = [cpm_overrun, nxsb1], l_xp_obj_len = 2,
            l_xp_obj = [obj3, nxsb1]\<rparr>, [(0, 1), (1, 2), (5, 1), (0, 1)])"
  by (simp add: load_ephemeral_def example_defs stage_defs upt_rec mapping_at_def)

lemma omap_mapped_main:
  "main K0 (image_env (container_with [3, 4, 5, 6, 8] (corrupt eph))) =
     (EndEphemeralMalformed, [(0, 1), (1, 2), (3, 1), (4, 1), (5, 1), (6, 1), (8, 1)])"
  by (simp add: main_def load_ephemeral_def container_with_materialize and_then_def Let_def)
     (simp add: example_defs upt_rec and_then_def mapping_at_def finish_def)


lemma indirect_main:
  "main K0 (image_env [nxsb_indirect 0x80000002]) = (EndIndirect, [(0, 1)])"
  by (simp add: main_def load_ephemeral_def example_defs stage_defs)

lemma refused_alloc_main:
  "main K0 (small_heap (image_env [nxsb_indirect 0xFFFFFFFF])) = (AbortAlloc S_xp_desc, [(0, 1)])"
  by (simp add: main_def load_ephemeral_def example_defs stage_defs)

lemma empty_main: "main K0 (image_env []) = (AbortReadBlock0, [(0, 1)])"
  by (simp add: main_def load_ephemeral_def example_defs stage_defs)

lemma stray_materialize:
  "materialize K0 (image_env container_stray) =
     (Inr (nxsb_stray, [nxsb_stray, blank]), [(0, 1), (1, 2)])"
  by (simp add: example_defs stage_defs upt_rec)


section \<open>The indirect descriptor area\<close>

text \<open>
  Claim C7, as the code has it. Once block 0 is read: when bit 31 of its
  \<open>nx_xp_desc_blocks\<close> field is set, the program reads no further block; it reports
  the indirect layout and returns 0 if the buffer for the descriptor area, sized by the
  masked count, could be allocated, and aborts on the failed allocation otherwise,
  since the buffer is allocated (lines 89 to 93) before the flag is looked at (line
  95). When the bit is clear and the buffer is allocated, the next read asks for as
  many blocks as the field with bit 31 masked off says, at the base address of the
  area.
\<close>

theorem indirect_descriptor_area:
  assumes "read_block0 E = (Inr nxsb, tr0)"
  shows "if bit (nx_xp_desc_blocks nxsb) 31
         then main K E =
                (if malloc_ok E S_xp_desc (unat (nx_xp_desc_blocks nxsb AND 0x7FFFFFFF))
                 then EndIndirect else AbortAlloc S_xp_desc, [(0, 1)])
         else if \<not> malloc_ok E S_xp_desc (unat (nx_xp_desc_blocks nxsb AND 0x7FFFFFFF))
         then main K E = (AbortAlloc S_xp_desc, [(0, 1)])
         else (\<exists>rest. snd (main K E) =
                 (0, 1) # (nx_xp_desc_base nxsb, unat (nx_xp_desc_blocks nxsb AND 0x7FFFFFFF)) # rest)"
proof -
  let ?n = "unat (nx_xp_desc_blocks nxsb AND 0x7FFFFFFF)"
  from read_block0_Inr [OF assms] have tr0: "tr0 = [(0, 1)]" by simp
  show ?thesis
  proof (cases "malloc_ok E S_xp_desc ?n")
    case False
    then have "load_xp_desc E nxsb tr0 = (Inl (AbortAlloc S_xp_desc), tr0)"
      by (simp add: load_xp_desc_def xp_desc_blocks_of_mask)
    from main_stops_at_xp_desc [OF assms this] False tr0 show ?thesis by simp
  next
    case True
    show ?thesis
    proof (cases "bit (nx_xp_desc_blocks nxsb) 31")
      case ind: True
      with True have "load_xp_desc E nxsb tr0 = (Inl EndIndirect, tr0)"
        by (simp add: load_xp_desc_def xp_desc_blocks_of_mask is_indirect_bit)
      from main_stops_at_xp_desc [OF assms this] True ind tr0 show ?thesis by simp
    next
      case dir: False
      let ?req = "(nx_xp_desc_base nxsb, ?n)"
      obtain r1 tr1 where l: "load_xp_desc E nxsb tr0 = (r1, tr1)"
        by (cases "load_xp_desc E nxsb tr0")
      with True dir have tr1: "tr1 = tr0 @ [?req]"
        by (auto simp: load_xp_desc_def xp_desc_blocks_of_mask is_indirect_bit Let_def
            split: if_splits)
      have "\<exists>rest. snd (main K E) = tr1 @ rest"
      proof (cases r1)
        case (Inl e)
        with l main_stops_at_xp_desc [OF assms] show ?thesis by simp
      next
        case (Inr xp_desc)
        with l main_grows_xp_desc [OF assms] show ?thesis by simp
      qed
      with tr1 tr0 True dir show ?thesis by simp
    qed
  qed
qed

text \<open>
  A superblock with the flag set and a count of 2: the run ends there after one read.
  On the example container the flag is clear and the second read asks for the two
  blocks of the area.
\<close>

theorem indirect_descriptor_area_witness:
  "main K0 (image_env [nxsb_indirect 0x80000002]) = (EndIndirect, [(0, 1)])
   \<and> (\<exists>rest. snd (main K0 (image_env (container eph))) = (0, 1) # (1, 2) # rest)"
proof -
  have a: "read_block0 (image_env [nxsb_indirect 0x80000002]) =
      (Inr (nxsb_indirect 0x80000002), [(0, 1)])"
    by (simp add: read_block0_def image_env_def)
  have b: "read_block0 (image_env (container eph)) = (Inr nxsb1, [(0, 1)])"
    by (simp add: read_block0_def image_env_def container_def container_with_def)
  have "bit (nx_xp_desc_blocks (nxsb_indirect 0x80000002)) 31"
    by (simp add: nxsb_indirect_def bit_iff_odd)
  with indirect_descriptor_area [OF a, of K0]
  have "main K0 (image_env [nxsb_indirect 0x80000002]) = (EndIndirect, [(0, 1)])"
    by (simp add: image_env_def)
  moreover have "\<not> bit (nx_xp_desc_blocks nxsb1) 31"
    by (simp add: nxsb1_def bit_iff_odd)
  with indirect_descriptor_area [OF b, of K0]
  have "\<exists>rest. snd (main K0 (image_env (container eph))) = (0, 1) # (1, 2) # rest"
    by (simp add: image_env_def nxsb1_def)
  ultimately show ?thesis by simp
qed

text \<open>
  The claim as it is written, for every block 0 with the flag set, fails: with the
  field \<open>0xFFFFFFFF\<close> the program asks for a buffer of \<open>2 ^ 31 - 1\<close> blocks first,
  and where that allocation is refused it aborts without reporting the layout.
\<close>

theorem indirect_descriptor_area_counterexample:
  "read_block0 (small_heap (image_env [nxsb_indirect 0xFFFFFFFF])) =
     (Inr (nxsb_indirect 0xFFFFFFFF), [(0, 1)])
   \<and> bit (nx_xp_desc_blocks (nxsb_indirect 0xFFFFFFFF)) 31
   \<and> main K0 (small_heap (image_env [nxsb_indirect 0xFFFFFFFF])) = (AbortAlloc S_xp_desc, [(0, 1)])"
  by (simp add: main_def load_ephemeral_def example_defs stage_defs bit_iff_odd)

section \<open>The classification of the checkpoint's blocks\<close>

text \<open>
  Claim C6 says that every block of a materialized checkpoint classifies as a
  container superblock or as a checkpoint map, so that the assertion of line 187 never
  fails. The code asserts it and does not ensure it: the scan only warns about a block
  that is neither (lines 130 to 133), and the copy takes whatever blocks the start
  index and the length of the selected superblock name. In the container below the
  selected superblock names a checkpoint of two blocks, the second of which is
  neither a superblock nor a checkpoint map; the checkpoint is materialized and the
  program's own assertion fails. (With a descriptor area whose blocks all classify,
  the assertion holds: lemma \<open>classified_area_passes_assertion\<close>.)
\<close>

theorem checkpoint_assertion_fails:
  "materialize K0 (image_env container_stray) =
     (Inr (nxsb_stray, [nxsb_stray, blank]), [(0, 1), (1, 2)])
   \<and> \<not> is_nx_superblock blank \<and> \<not> is_checkpoint_map_phys blank
   \<and> main K0 (image_env container_stray) = (AssertClassification, [(0, 1), (1, 2)])"
  by (simp add: stray_materialize main_def load_ephemeral_def and_then_def)
     (simp add: example_defs)

section \<open>Counting and fetching the ephemeral objects\<close>




section \<open>A malformed ephemeral object\<close>

text \<open>
  Claim C5. For every run that has fetched all the ephemeral objects of its
  checkpoint: if at least one of the fetched objects fails checksum validation, be it
  a single one and wherever it lies, the program gives up the whole checkpoint: it
  ends with the report that an ephemeral object of the checkpoint is malformed.
  (\<open>load_ephemeral\<close> returns for every run that reaches the loading and fetches every
  mapping without overflowing the mapping count: lemma \<open>load_ephemeral_completes\<close>.)
\<close>

theorem ephemeral_checksum_failure_abandons_checkpoint:
  assumes "load_ephemeral K E = (Inr L, tr)"
    and "\<exists>obj\<in>set (l_xp_obj L). \<not> is_cksum_valid obj"
  shows "fst (main K E) = EndEphemeralMalformed"
  using finish_malformed [OF loaded_length [OF assms(1)] assms(2)]
  by (simp add: main_load_ephemeral_Inr [OF assms(1)])

text \<open>
  Scenario C of the specification: five mappings, and the target of the third fails
  checksum validation. And a checkpoint map that declares more mappings than it
  holds: the run fetches both, the first fails validation.
\<close>

theorem ephemeral_checksum_failure_witness:
  "load_ephemeral K0 (image_env (container (corrupt eph))) =
     (Inr \<lparr>l_nxsb = nxsb1, l_xp = [cpm 1 [3, 4, 5, 6, 7], nxsb1], l_xp_obj_len = 5,
            l_xp_obj = [eph, eph, corrupt eph, eph, eph]\<rparr>, container_reads)
   \<and> \<not> is_cksum_valid (corrupt eph)
   \<and> fst (main K0 (image_env (container (corrupt eph)))) = EndEphemeralMalformed
   \<and> load_ephemeral K0 (image_env (container_overrun (corrupt eph))) =
     (Inr \<lparr>l_nxsb = nxsb1, l_xp = [cpm_overrun, nxsb1], l_xp_obj_len = 2,
            l_xp_obj = [corrupt eph, nxsb1]\<rparr>, [(0, 1), (1, 2), (5, 1), (0, 1)])
   \<and> fst (main K0 (image_env (container_overrun (corrupt eph)))) = EndEphemeralMalformed"
proof -
  have bad: "\<not> is_cksum_valid (corrupt eph)" by (simp add: corrupt_def)
  then have b1: "\<exists>obj\<in>set (l_xp_obj \<lparr>l_nxsb = nxsb1, l_xp = [cpm 1 [3, 4, 5, 6, 7], nxsb1],
      l_xp_obj_len = 5, l_xp_obj = [eph, eph, corrupt eph, eph, eph]\<rparr>). \<not> is_cksum_valid obj"
    by simp
  from bad have b2: "\<exists>obj\<in>set (l_xp_obj \<lparr>l_nxsb = nxsb1, l_xp = [cpm_overrun, nxsb1],
      l_xp_obj_len = 2, l_xp_obj = [corrupt eph, nxsb1]\<rparr>). \<not> is_cksum_valid obj"
    by simp
  from ephemeral_checksum_failure_abandons_checkpoint [OF container_load_ephemeral b1]
    ephemeral_checksum_failure_abandons_checkpoint [OF overrun_load_ephemeral b2] bad
  show ?thesis by (simp add: container_load_ephemeral overrun_load_ephemeral)
qed

text \<open>
  Claim C10, as the code has it. If any ephemeral object fails checksum validation,
  no block is read after the failure is detected: the reads of the whole run are the
  read of block 0, the read of the descriptor area and one fetch per checkpoint
  mapping, in this order. So the object map and the root of its B-tree are not read
  after the failure; a block at the address of the object map is among the reads of
  the run only if one of these earlier reads asks for it.
\<close>

theorem no_read_after_checksum_failure:
  assumes "load_ephemeral K E = (Inr L, tr)"
    and "\<exists>obj\<in>set (l_xp_obj L). \<not> is_cksum_valid obj"
  shows "snd (main K E) = tr \<and>
         tr = (0, 1) # (nx_xp_desc_base (hd (read_blocks E 0 1)),
                        unat (xp_desc_blocks_of (hd (read_blocks E 0 1))))
                # fetches (collect_mappings E (l_xp L))"
proof -
  have "snd (main K E) = tr"
    using finish_malformed [OF loaded_length [OF assms(1)] assms(2)]
    by (simp add: main_load_ephemeral_Inr [OF assms(1)])
  moreover from load_ephemeral_Inr [OF assms(1)] obtain tr0 where
    m: "materialize K E = (Inr (l_nxsb L, l_xp L), tr0)" and
    l: "load_all E (unat (l_xp_obj_len L)) (l_xp L) [] tr0 = (Inr (l_xp_obj L), tr)"
    by blast
  from materialize_Inr [OF m] obtain nxsb0 where
    "read_block0 E = (Inr nxsb0, [(0, 1)])"
    "tr0 = [(0, 1), (nx_xp_desc_base nxsb0, unat (xp_desc_blocks_of nxsb0))]"
    by blast
  moreover from this(1) have "nxsb0 = hd (read_blocks E 0 1)"
    using read_block0_Inr by blast
  moreover from load_all_Inr [OF l] have "tr = tr0 @ fetches (collect_mappings E (l_xp L))"
    by simp
  ultimately show ?thesis by simp
qed

text \<open>
  On the example container with a corrupt third object the run ends after the seven
  reads; with sound objects it goes on to read the object map (block 8) and the B-tree
  root (block 9).
\<close>

theorem no_read_after_checksum_failure_witness:
  "snd (main K0 (image_env (container (corrupt eph)))) =
     [(0, 1), (1, 2), (3, 1), (4, 1), (5, 1), (6, 1), (7, 1)]
   \<and> snd (main K0 (image_env (container eph))) =
     [(0, 1), (1, 2), (3, 1), (4, 1), (5, 1), (6, 1), (7, 1), (8, 1), (9, 1)]"
proof -
  have "\<exists>obj\<in>set (l_xp_obj \<lparr>l_nxsb = nxsb1, l_xp = [cpm 1 [3, 4, 5, 6, 7], nxsb1],
      l_xp_obj_len = 5, l_xp_obj = [eph, eph, corrupt eph, eph, eph]\<rparr>). \<not> is_cksum_valid obj"
    by (simp add: corrupt_def)
  from no_read_after_checksum_failure [OF container_load_ephemeral this]
  have "snd (main K0 (image_env (container (corrupt eph)))) = container_reads"
    by simp
  then show ?thesis
    by (simp add: container_main container_reads_def)
qed

text \<open>
  The claim as it is written, that the object map block is never fetched on such a
  run, fails: here the fifth checkpoint mapping points at block 8, which is also the
  address of the object map, and the block is fetched although the run ends on the
  malformed third object.
\<close>

theorem object_map_address_fetched_counterexample:
  "main K0 (image_env (container_with [3, 4, 5, 6, 8] (corrupt eph))) =
     (EndEphemeralMalformed, [(0, 1), (1, 2), (3, 1), (4, 1), (5, 1), (6, 1), (8, 1)])
   \<and> fst (materialize K0 (image_env (container_with [3, 4, 5, 6, 8] (corrupt eph)))) =
       Inr (nxsb1, [cpm 1 [3, 4, 5, 6, 8], nxsb1])
   \<and> nx_omap_oid nxsb1 = 8"
  by (simp add: omap_mapped_main container_with_materialize) (simp add: nxsb1_def)

text \<open>When every object validates, the object map is the next block read.\<close>

lemma omap_read_follows_validation:
  assumes "load_ephemeral K E = (Inr L, tr)"
    and "list_all is_cksum_valid (l_xp_obj L)" and "l_xp_obj L \<noteq> []"
  shows "\<exists>rest. snd (main K E) = tr @ (nx_omap_oid (l_nxsb L), 1) # rest"
proof -
  have len: "length (l_xp_obj L) = unat (l_xp_obj_len L)"
    by (rule loaded_length [OF assms(1)])
  with assms(3) have "l_xp_obj_len L \<noteq> 0" by auto
  then show ?thesis
    using assms(2) len
    by (simp add: main_load_ephemeral_Inr [OF assms(1)] finish_def Let_def validate_all_iff)
qed

section \<open>Telling the outcomes apart\<close>

text \<open>
  An outcome of one of the kinds returns \<open>-1\<close> when it is an I/O error and 0 otherwise.
\<close>

lemma kind_status:
  "kind_of out = Some k \<Longrightarrow> exit_status out = Some (if k = IOError then - 1 else 0)"
  by (cases out) auto

text \<open>
  Claim C9, as the code has it. A run ends in an I/O error exactly when it returns
  after one of its reads came short. A run that ends in one of the four kinds (I/O
  error, abandoned checkpoint, unsupported layout, completion) returns \<open>-1\<close> when the
  kind is an I/O error and 0 otherwise: the values returned by two such runs are equal
  exactly when both or neither ended in an I/O error, so the return value tells an
  I/O error from the other three kinds and does not tell those three from one another.
  Nor does \<open>-1\<close> tell an I/O error from a failed allocation, which returns \<open>-1\<close> too.
\<close>

theorem return_value_by_kind:
  "((kind_of (fst (main K E)) = Some IOError) =
      (\<not> delivered E (snd (main K E)) \<and> exit_status (fst (main K E)) \<noteq> None))
   \<and> (\<forall>k. kind_of (fst (main K E)) = Some k \<longrightarrow>
         exit_status (fst (main K E)) = Some (if k = IOError then - 1 else 0))
   \<and> (\<forall>k k'. kind_of (fst (main K E)) = Some k \<longrightarrow> kind_of (fst (main K' E')) = Some k' \<longrightarrow>
         (exit_status (fst (main K E)) = exit_status (fst (main K' E'))) =
         ((k = IOError) = (k' = IOError)))
   \<and> (\<forall>s. fst (main K E) = AbortAlloc s \<longrightarrow> exit_status (fst (main K E)) = Some (- 1))"
proof (intro conjI allI impI)
  show "(kind_of (fst (main K E)) = Some IOError) =
      (\<not> delivered E (snd (main K E)) \<and> exit_status (fst (main K E)) \<noteq> None)"
    by (rule main_log)
next
  fix k
  assume "kind_of (fst (main K E)) = Some k"
  then show "exit_status (fst (main K E)) = Some (if k = IOError then - 1 else 0)"
    by (rule kind_status)
next
  fix k k'
  assume "kind_of (fst (main K E)) = Some k" and "kind_of (fst (main K' E')) = Some k'"
  from kind_status [OF this(1)] kind_status [OF this(2)]
  show "(exit_status (fst (main K E)) = exit_status (fst (main K' E'))) =
      ((k = IOError) = (k' = IOError))"
    by auto
next
  fix s
  assume "fst (main K E) = AbortAlloc s"
  then show "exit_status (fst (main K E)) = Some (- 1)"
    by simp
qed

text \<open>
  A failed read of block 0 against a completed run: a read that came short, and
  different return values. A refused allocation against the failed read: the same
  return value.
\<close>

theorem return_value_witness:
  "exit_status (fst (main K0 (image_env []))) \<noteq>
     exit_status (fst (main K0 (image_env (container eph))))
   \<and> \<not> delivered (image_env []) (snd (main K0 (image_env [])))
   \<and> exit_status (fst (main K0 (small_heap (image_env [nxsb_indirect 0xFFFFFFFF])))) =
     exit_status (fst (main K0 (image_env [])))"
proof -
  have a: "kind_of (fst (main K0 (image_env []))) = Some IOError"
    by (simp add: empty_main)
  have b: "kind_of (fst (main K0 (image_env (container eph)))) = Some Completed"
    by (simp add: container_main)
  have c: "fst (main K0 (small_heap (image_env [nxsb_indirect 0xFFFFFFFF]))) = AbortAlloc S_xp_desc"
    by (simp add: refused_alloc_main)
  note r1 = return_value_by_kind [of K0 "image_env []" K0 "image_env (container eph)"]
  note r2 = return_value_by_kind
    [of K0 "small_heap (image_env [nxsb_indirect 0xFFFFFFFF])" K0 "image_env []"]
  from r1 a b have 1: "exit_status (fst (main K0 (image_env []))) \<noteq>
      exit_status (fst (main K0 (image_env (container eph))))"
    by auto
  from r1 a have 2: "\<not> delivered (image_env []) (snd (main K0 (image_env [])))"
    by blast
  from r1 a have "exit_status (fst (main K0 (image_env []))) = Some (- 1)"
    by auto
  moreover from r2 c
  have "exit_status (fst (main K0 (small_heap (image_env [nxsb_indirect 0xFFFFFFFF])))) = Some (- 1)"
    by blast
  ultimately show ?thesis using 1 2 by simp
qed

text \<open>
  The claim as it is written, with the value \<^verbatim>\<open>main\<close> returns as the program's result,
  fails: the unsupported layout, the abandoned checkpoint and the completed run all
  return 0.
\<close>

theorem return_value_counterexample:
  "kind_of (fst (main K0 (image_env [nxsb_indirect 0x80000002]))) = Some UnsupportedLayout
   \<and> kind_of (fst (main K0 (image_env (container (corrupt eph))))) = Some NoConsistentCheckpoint
   \<and> kind_of (fst (main K0 (image_env (container eph)))) = Some Completed
   \<and> exit_status (fst (main K0 (image_env [nxsb_indirect 0x80000002]))) = Some 0
   \<and> exit_status (fst (main K0 (image_env (container (corrupt eph))))) = Some 0
   \<and> exit_status (fst (main K0 (image_env (container eph)))) = Some 0"
  by (simp add: indirect_main container_main container_corrupt_main)

end
